theory Spec2Isabelle
  imports Main "HOL-Library.Word" "HOL-Library.Signed_Division"
begin

section \<open>The batcher of service/worker/batcher/workflow.go\<close>

text \<open>
  The batch engine applies terminate, cancel or signal to every workflow execution that a
  visibility query returns. This theory embeds \<^verbatim>\<open>validateParams\<close>,
  \<^verbatim>\<open>setDefaultParams\<close>, \<^verbatim>\<open>processTask\<close>, the per-task body of
  \<^verbatim>\<open>startTaskProcessor\<close> and \<^verbatim>\<open>BatchActivity\<close>.

  Go's \<^verbatim>\<open>int\<close>, on the 64-bit platforms of the service, and \<^verbatim>\<open>int64\<close> are
  64-bit words: \<open>+\<close> wraps around as it does in Go, \<open>\<le>s\<close> and \<open><s\<close> compare the
  two's complement values, and \<open>sint\<close> reads them. A \<^verbatim>\<open>string\<close> and a
  \<^verbatim>\<open>[]byte\<close> are both byte sequences, hence \<^typ>\<open>string\<close>. A
  \<^verbatim>\<open>*bool\<close> is a \<^typ>\<open>bool option\<close>, \<^verbatim>\<open>nil\<close> being \<^term>\<open>None\<close>;
  an \<^verbatim>\<open>error\<close> is an \<open>err option\<close>.
\<close>

subsection \<open>Data\<close>

type_synonym bytes = string

type_synonym int64 = "64 word"

text \<open>
  An error value has a dynamic type and a message. The only dynamic type the batcher
  tests for is \<^verbatim>\<open>*shared.EntityNotExistsError\<close>.
\<close>

datatype err = EntityNotExistsError string | OtherError string

fun Error :: "err \<Rightarrow> string" where
  "Error (EntityNotExistsError m) = m"
| "Error (OtherError m) = m"

fun isEntityNotExists :: "err \<Rightarrow> bool" where
  "isEntityNotExists (EntityNotExistsError m) = True"
| "isEntityNotExists (OtherError m) = False"

record WorkflowExecution =
  WorkflowId :: string
  RunId :: string

record TerminateParams =
  TerminateChildren :: "bool option"

record CancelParams =
  CancelChildren :: "bool option"

record SignalParams =
  SignalName :: string
  Input :: string

text \<open>
  The field \<^verbatim>\<open>_nonRetryableErrors\<close> is a \<^verbatim>\<open>map[string]struct{}\<close>; the
  \<^verbatim>\<open>nil\<close> map and the empty map answer every lookup alike, so both are
  \<^term>\<open>Map.empty\<close>. \<^verbatim>\<open>ActivityHeartBeatTimeout\<close> is a
  \<^verbatim>\<open>time.Duration\<close>, a count of nanoseconds.
\<close>

record BatchParams =
  DomainName :: string
  Query :: string
  Reason :: string
  BatchType :: int64
  TerminateParams :: TerminateParams
  CancelParams :: CancelParams
  SignalParams :: SignalParams
  RPS :: int64
  Concurrency :: int64
  AttemptsOnRetryableError :: int64
  ActivityHeartBeatTimeout :: int64
  NonRetryableErrors :: "string list"
  nonRetryableErrors' :: "string \<rightharpoonup> unit"

record HeartBeatDetails =
  PageToken :: bytes
  CurrentPage :: int64
  TotalEstimate :: int64
  SuccessCount :: int64
  ErrorCount :: int64

record taskDetail =
  execution :: WorkflowExecution
  attempts :: int64
  hbd :: HeartBeatDetails

text \<open>The zero value \<^verbatim>\<open>HeartBeatDetails{}\<close>.\<close>

definition zeroHeartBeatDetails :: HeartBeatDetails where
  "zeroHeartBeatDetails =
     \<lparr>PageToken = [], CurrentPage = 0, TotalEstimate = 0, SuccessCount = 0, ErrorCount = 0\<rparr>"

subsection \<open>Constants\<close>

text \<open>
  \<^verbatim>\<open>pageSize\<close> reaches the client as \<^verbatim>\<open>int32(pageSize)\<close>;
  \<^verbatim>\<open>defaultActivityHeartBeatTimeout\<close> is \<^verbatim>\<open>time.Minute\<close> in nanoseconds.
\<close>

definition pageSize :: "32 word" where "pageSize = 1000"
definition defaultRPS :: int64 where "defaultRPS = 50"
definition defaultRPSPerConcurrency :: int64 where "defaultRPSPerConcurrency = 10"
definition defaultAttemptsOnRetryableError :: int64 where "defaultAttemptsOnRetryableError = 50"
definition defaultActivityHeartBeatTimeout :: int64 where
  "defaultActivityHeartBeatTimeout = 60 * 1000000000"

text \<open>
  \<^verbatim>\<open>BatchTypeTerminate\<close>, \<^verbatim>\<open>BatchTypeCancel\<close> and \<^verbatim>\<open>BatchTypeSignal\<close>
  are the integer values of three constants of the generated package
  \<^verbatim>\<open>.gen/go/shared\<close>, whose declaration is not part of the sources at hand. They are
  a parameter of every function that reads them. Go rejects a \<^verbatim>\<open>switch\<close> with
  two equal constant cases, so the three values differ; \<open>distinctBatchTypes\<close> says so.
\<close>

record BatchTypes =
  BatchTypeTerminate :: int64
  BatchTypeCancel :: int64
  BatchTypeSignal :: int64


subsection \<open>validateParams and setDefaultParams\<close>

text \<open>\<^verbatim>\<open>%v\<close> of an \<^verbatim>\<open>int\<close>: its decimal digits, with a minus sign below zero.\<close>

fun showNat :: "nat \<Rightarrow> string" where
  "showNat n =
     (if n < 10 then [char_of (48 + n)]
      else showNat (n div 10) @ [char_of (48 + n mod 10)])"

declare showNat.simps [simp del]

definition showInt :: "int \<Rightarrow> string" where
  "showInt i = (if i < 0 then CHR ''-'' # showNat (nat (- i)) else showNat (nat i))"

definition validateParams :: "BatchTypes \<Rightarrow> BatchParams \<Rightarrow> err option" where
  "validateParams bt params =
     (if Reason params = [] \<or> DomainName params = [] \<or> Query params = [] then
        Some (OtherError
          ''must provide required parameters: BatchType/Reason/DomainName/Query'')
      else if BatchType params = BatchTypeSignal bt then
        (if SignalName (SignalParams params) = [] then
           Some (OtherError ''must provide signal name'')
         else None)
      else if BatchType params = BatchTypeCancel bt then None
      else if BatchType params = BatchTypeTerminate bt then None
      else Some (OtherError
             (''not supported batch type: '' @ showInt (sint (BatchType params)))))"

text \<open>
  \<^verbatim>\<open>/\<close> on \<^verbatim>\<open>int\<close>, for a divisor other than zero: it truncates towards zero, as
  \<open>sdiv\<close> on \<^typ>\<open>int\<close> does, and wraps around.
\<close>

definition goDiv :: "int64 \<Rightarrow> int64 \<Rightarrow> int64" where
  "goDiv a b = word_of_int (sint a sdiv sint b)"

text \<open>
  Each \<^verbatim>\<open>if\<close> of \<^verbatim>\<open>setDefaultParams\<close> updates the parameters that the
  previous one left.
\<close>

definition setDefaultParams :: "BatchParams \<Rightarrow> BatchParams" where
  "setDefaultParams params =
     (let p1 = (if RPS params \<le>s 0 then params\<lparr>RPS := defaultRPS\<rparr> else params);
          p2 = (if Concurrency p1 \<le>s 0
                then p1\<lparr>Concurrency := goDiv (RPS p1) defaultRPSPerConcurrency\<rparr> else p1);
          p3 = (if AttemptsOnRetryableError p2 \<le>s 0
                then p2\<lparr>AttemptsOnRetryableError := defaultAttemptsOnRetryableError\<rparr>
                else p2);
          p4 = (if ActivityHeartBeatTimeout p3 \<le>s 0
                then p3\<lparr>ActivityHeartBeatTimeout := defaultActivityHeartBeatTimeout\<rparr>
                else p3);
          p5 = (if length (NonRetryableErrors p4) > 0
                then p4\<lparr>nonRetryableErrors' :=
                       fold (\<lambda>estr m. m(estr \<mapsto> ())) (NonRetryableErrors p4) Map.empty\<rparr>
                else p4);
          p6 = (if TerminateChildren (TerminateParams p5) = None
                then p5\<lparr>TerminateParams :=
                       (TerminateParams p5)\<lparr>TerminateChildren := Some True\<rparr>\<rparr>
                else p5)
      in p6)"

subsection \<open>The environment of the engine\<close>

text \<open>
  The visibility and frontend client, the rate limiter, the context and the activity host
  are outside the engine. Every call the engine makes to them is appended to a log, and
  the answer of the environment to a call is a function of the log of the earlier calls
  and of the arguments of this one. An answer may thus depend on everything that went
  before, and every answering behaviour met in one run is an instance.
\<close>

datatype metric = BatcherProcessorFailures | BatcherProcessorSuccess

record WorkflowExecutionInfo =
  Execution :: WorkflowExecution

record ListWorkflowExecutionsResponse =
  Executions :: "WorkflowExecutionInfo list"
  NextPageToken :: bytes

record PendingChildExecutionInfo =
  WorkflowID :: string
  RunID :: string

record DescribeWorkflowExecutionResponse =
  PendingChildren :: "PendingChildExecutionInfo list"

text \<open>
  What the \<^verbatim>\<open>select\<close> of the dispatcher receives: an outcome from the response
  channel, or the end of the context with \<^verbatim>\<open>ctx.Err()\<close>.
\<close>

datatype selectEvent = RespEv "err option" | DoneEv err

datatype call =
    HasHeartbeatDetailsCall
  | GetHeartbeatDetailsCall
  | IncCounterCall metric
  | LogErrorCall string err
  | LogInfoCall string int64
  | CountWorkflowCall string
  | ScanWorkflowCall "32 word" bytes string
  | GoTaskProcessorCall
  | SendTaskCall taskDetail
  | SelectCall selectEvent
  | RecordHeartbeatCall HeartBeatDetails
  | IsDoneCall
  | LimiterWaitCall
  | TerminateWorkflowCall string string string bytes
  | CancelWorkflowCall string string
  | SignalWorkflowCall string string string bytes
  | DescribeWorkflowExecutionCall string string

text \<open>
  \<open>GetHeartbeatDetails\<close> is \<open>Inr h\<close> when the host decodes the details \<open>h\<close>
  into the destination \<^verbatim>\<open>&hbd\<close>, and \<open>Inl (e, left)\<close> when it fails with the
  error \<open>e\<close>, where \<open>left\<close> is what the destination then holds: the zero value it
  was declared with, unless the decoder wrote into it before it failed. \<open>selectResp\<close>
  is \<^term>\<open>None\<close> when neither channel of the \<^verbatim>\<open>select\<close> ever becomes ready.
\<close>

record Env =
  HasHeartbeatDetails :: bool
  GetHeartbeatDetails :: "err \<times> HeartBeatDetails + HeartBeatDetails"
  CountWorkflow :: "call list \<Rightarrow> string \<Rightarrow> err + int64"
  ScanWorkflow ::
    "call list \<Rightarrow> 32 word \<Rightarrow> bytes \<Rightarrow> string \<Rightarrow> err + ListWorkflowExecutionsResponse"
  selectResp :: "call list \<Rightarrow> selectEvent option"
  isDone :: "call list \<Rightarrow> bool"
  limiterWait :: "call list \<Rightarrow> err option"
  TerminateWorkflow :: "call list \<Rightarrow> string \<Rightarrow> string \<Rightarrow> string \<Rightarrow> bytes \<Rightarrow> err option"
  CancelWorkflow :: "call list \<Rightarrow> string \<Rightarrow> string \<Rightarrow> err option"
  SignalWorkflow :: "call list \<Rightarrow> string \<Rightarrow> string \<Rightarrow> string \<Rightarrow> bytes \<Rightarrow> err option"
  DescribeWorkflowExecution ::
    "call list \<Rightarrow> string \<Rightarrow> string \<Rightarrow> err + DescribeWorkflowExecutionResponse"

subsection \<open>processTask\<close>

type_synonym procFn = "string \<Rightarrow> string \<Rightarrow> call list \<Rightarrow> err option \<times> call list"

datatype walkResult = WalkReturn "err option" | WalkContinue "WorkflowExecution list"

text \<open>
  One pass through the body of \<^verbatim>\<open>for len(wfs) > 0\<close>, for the queue
  \<open>wfe # rest\<close>: \<open>wfe\<close> is the \<^verbatim>\<open>wf\<close> of the source, \<^verbatim>\<open>wfs[0]\<close>, and
  \<open>rest\<close> is \<^verbatim>\<open>wfs[1:]\<close>. The condition
  \<^verbatim>\<open>applyOnChild != nil && *applyOnChild\<close> is \<open>applyOnChild = Some True\<close>. The
  function \<open>procFn\<close> takes the log and returns it with its own call appended.
\<close>

definition walkBody ::
  "Env \<Rightarrow> taskDetail \<Rightarrow> bool option \<Rightarrow> procFn \<Rightarrow> WorkflowExecution \<Rightarrow> WorkflowExecution list
     \<Rightarrow> call list \<Rightarrow> walkResult \<times> call list" where
  "walkBody env task applyOnChild procFn wfe rest tr =
     (case limiterWait env tr of
        Some e \<Rightarrow> (WalkReturn (Some e), tr @ [LimiterWaitCall])
      | None \<Rightarrow>
          (case procFn (WorkflowId wfe) (RunId wfe) (tr @ [LimiterWaitCall]) of
             (perr, tr2) \<Rightarrow>
               if (case perr of Some e \<Rightarrow> \<not> isEntityNotExists e | None \<Rightarrow> False) then
                 (WalkReturn perr, tr2)
               else
                 (case DescribeWorkflowExecution env tr2 (WorkflowId wfe) (RunId wfe) of
                    Inl e \<Rightarrow>
                      if \<not> isEntityNotExists e then
                        (WalkReturn (Some e),
                         tr2 @ [DescribeWorkflowExecutionCall (WorkflowId wfe) (RunId wfe)])
                      else
                        (WalkContinue rest,
                         tr2 @ [DescribeWorkflowExecutionCall (WorkflowId wfe) (RunId wfe)])
                  | Inr resp \<Rightarrow>
                      if applyOnChild = Some True \<and> length (PendingChildren resp) > 0 then
                        (WalkContinue
                           (rest @ map (\<lambda>ch. \<lparr>WorkflowId = WorkflowID ch, RunId = RunID ch\<rparr>)
                                     (PendingChildren resp)),
                         tr2 @ [DescribeWorkflowExecutionCall (WorkflowId wfe) (RunId wfe),
                                LogInfoCall ''Found more child workflows to process''
                                  (of_nat (length (PendingChildren resp))),
                                RecordHeartbeatCall (hbd task)])
                      else
                        (WalkContinue rest,
                         tr2 @ [DescribeWorkflowExecutionCall (WorkflowId wfe) (RunId wfe),
                                RecordHeartbeatCall (hbd task)]))))"

text \<open>
  The loop itself. A tree of children that never ends keeps the loop running for ever:
  the result is then \<^term>\<open>None\<close>.
\<close>

partial_function (option) processLoop ::
  "Env \<Rightarrow> taskDetail \<Rightarrow> bool option \<Rightarrow> procFn \<Rightarrow> WorkflowExecution list \<Rightarrow> call list
     \<Rightarrow> (err option \<times> call list) option" where
  "processLoop env task applyOnChild procFn wfs tr =
     (case wfs of
        [] \<Rightarrow> Some (None, tr)
      | wfe # rest \<Rightarrow>
          (case walkBody env task applyOnChild procFn wfe rest tr of
             (WalkReturn e, tr') \<Rightarrow> Some (e, tr')
           | (WalkContinue wfs', tr') \<Rightarrow> processLoop env task applyOnChild procFn wfs' tr'))"

declare processLoop.simps [code]

definition processTask ::
  "Env \<Rightarrow> taskDetail \<Rightarrow> bool option \<Rightarrow> procFn \<Rightarrow> call list
     \<Rightarrow> (err option \<times> call list) option" where
  "processTask env task applyOnChild procFn tr =
     processLoop env task applyOnChild procFn [execution task] tr"

subsection \<open>startTaskProcessor\<close>

text \<open>The three closures that \<^verbatim>\<open>startTaskProcessor\<close> hands to \<^verbatim>\<open>processTask\<close>.\<close>

definition terminateFn :: "Env \<Rightarrow> BatchParams \<Rightarrow> procFn" where
  "terminateFn env batchParams workflowID runID tr =
     (TerminateWorkflow env tr workflowID runID (Reason batchParams) [],
      tr @ [TerminateWorkflowCall workflowID runID (Reason batchParams) []])"

definition cancelFn :: "Env \<Rightarrow> BatchParams \<Rightarrow> procFn" where
  "cancelFn env batchParams workflowID runID tr =
     (CancelWorkflow env tr workflowID runID, tr @ [CancelWorkflowCall workflowID runID])"

definition signalFn :: "Env \<Rightarrow> BatchParams \<Rightarrow> procFn" where
  "signalFn env batchParams workflowID runID tr =
     (SignalWorkflow env tr workflowID runID (SignalName (SignalParams batchParams))
        (Input (SignalParams batchParams)),
      tr @ [SignalWorkflowCall workflowID runID (SignalName (SignalParams batchParams))
              (Input (SignalParams batchParams))])"

text \<open>
  The \<^verbatim>\<open>switch\<close> on the batch type. With a batch type that matches no case
  \<^verbatim>\<open>err\<close> stays \<^verbatim>\<open>nil\<close>.
\<close>

definition dispatchTask ::
  "BatchTypes \<Rightarrow> Env \<Rightarrow> BatchParams \<Rightarrow> taskDetail \<Rightarrow> call list
     \<Rightarrow> (err option \<times> call list) option" where
  "dispatchTask bt env batchParams task tr =
     (if BatchType batchParams = BatchTypeTerminate bt then
        processTask env task (TerminateChildren (TerminateParams batchParams))
          (terminateFn env batchParams) tr
      else if BatchType batchParams = BatchTypeCancel bt then
        processTask env task (CancelChildren (CancelParams batchParams))
          (cancelFn env batchParams) tr
      else if BatchType batchParams = BatchTypeSignal bt then
        processTask env task (Some False) (signalFn env batchParams) tr
      else Some (None, tr))"

text \<open>
  What a processor does with one task received from the task channel: it returns when
  the context is done, sends an outcome on the response channel, or puts the task back
  on the task channel.
\<close>

datatype workerResult = WorkerReturn | RespChSend "err option" | TaskChSend taskDetail

definition taskProcessorBody ::
  "BatchTypes \<Rightarrow> Env \<Rightarrow> BatchParams \<Rightarrow> taskDetail \<Rightarrow> call list
     \<Rightarrow> (workerResult \<times> call list) option" where
  "taskProcessorBody bt env batchParams task tr =
     (if isDone env tr then Some (WorkerReturn, tr @ [IsDoneCall])
      else
        (case dispatchTask bt env batchParams task (tr @ [IsDoneCall]) of
           None \<Rightarrow> None
         | Some (Some e, tr1) \<Rightarrow>
             (let tr2 = tr1 @ [IncCounterCall BatcherProcessorFailures,
                              LogErrorCall ''Failed to process batch operation task'' e];
                  ok = (nonRetryableErrors' batchParams (Error e) \<noteq> None)
              in if ok \<or> AttemptsOnRetryableError batchParams \<le>s attempts task then
                   Some (RespChSend (Some e), tr2)
                 else Some (TaskChSend (task\<lparr>attempts := attempts task + 1\<rparr>), tr2))
         | Some (None, tr1) \<Rightarrow>
             Some (RespChSend None, tr1 @ [IncCounterCall BatcherProcessorSuccess])))"

text \<open>
  A task put back on the task channel is received again by a processor. Following one
  task through its receptions gives the outcome that reaches the response channel for
  it, or \<^term>\<open>None\<close> when none ever does.
\<close>

partial_function (option) followTask ::
  "BatchTypes \<Rightarrow> Env \<Rightarrow> BatchParams \<Rightarrow> taskDetail \<Rightarrow> call list
     \<Rightarrow> (err option \<times> call list) option" where
  "followTask bt env batchParams task tr =
     (case taskProcessorBody bt env batchParams task tr of
        None \<Rightarrow> None
      | Some (WorkerReturn, tr') \<Rightarrow> None
      | Some (RespChSend r, tr') \<Rightarrow> Some (r, tr')
      | Some (TaskChSend task', tr') \<Rightarrow> followTask bt env batchParams task' tr')"

declare followTask.simps [code]

subsection \<open>BatchActivity\<close>

text \<open>
  The inner loop \<^verbatim>\<open>Loop:\<close> that waits for the outcomes of one page. It yields the
  two counters, or the error of the context.
\<close>

partial_function (option) waitBatch ::
  "Env \<Rightarrow> int64 \<Rightarrow> int64 \<Rightarrow> int64 \<Rightarrow> call list
     \<Rightarrow> ((err + int64 \<times> int64) \<times> call list) option" where
  "waitBatch env batchCount succCount errCount tr =
     (case selectResp env tr of
        None \<Rightarrow> None
      | Some (DoneEv e) \<Rightarrow> Some (Inl e, tr @ [SelectCall (DoneEv e)])
      | Some (RespEv r) \<Rightarrow>
          (if (if r = None then succCount + 1 else succCount)
                + (if r = None then errCount else errCount + 1) = batchCount then
             Some (Inr (if r = None then succCount + 1 else succCount,
                        if r = None then errCount else errCount + 1),
                   tr @ [SelectCall (RespEv r)])
           else
             waitBatch env batchCount
               (if r = None then succCount + 1 else succCount)
               (if r = None then errCount else errCount + 1)
               (tr @ [SelectCall (RespEv r)])))"

declare waitBatch.simps [code]

datatype pageResult =
    PageReturn HeartBeatDetails "err option"
  | PageBreak HeartBeatDetails
  | PageContinue HeartBeatDetails

text \<open>
  One pass through the body of the outer \<^verbatim>\<open>for\<close>: \<open>PageReturn\<close> is a
  \<^verbatim>\<open>return\<close> inside the loop, \<open>PageBreak\<close> a \<^verbatim>\<open>break\<close> and
  \<open>PageContinue\<close> the next pass. The task channel has room for the tasks of one page,
  so a send does not block. \<^verbatim>\<open>len(resp.Executions)\<close> is the length as an
  \<^verbatim>\<open>int\<close>; a Go slice has fewer than \<open>2 ^ 63\<close> elements.
\<close>

definition pageBody ::
  "Env \<Rightarrow> BatchParams \<Rightarrow> HeartBeatDetails \<Rightarrow> call list \<Rightarrow> (pageResult \<times> call list) option" where
  "pageBody env batchParams hb tr =
     (case ScanWorkflow env tr pageSize (PageToken hb) (Query batchParams) of
        Inl e \<Rightarrow>
          Some (PageReturn zeroHeartBeatDetails (Some e),
                tr @ [ScanWorkflowCall pageSize (PageToken hb) (Query batchParams)])
      | Inr resp \<Rightarrow>
          if (of_nat (length (Executions resp)) :: int64) \<le>s 0 then
            Some (PageBreak hb,
                  tr @ [ScanWorkflowCall pageSize (PageToken hb) (Query batchParams)])
          else
            (case waitBatch env (of_nat (length (Executions resp))) 0 0
                    (tr @ [ScanWorkflowCall pageSize (PageToken hb) (Query batchParams)]
                        @ map (\<lambda>wfe. SendTaskCall
                                 \<lparr>execution = Execution wfe, attempts = 0, hbd = hb\<rparr>)
                            (Executions resp)) of
               None \<Rightarrow> None
             | Some (Inl e, tr3) \<Rightarrow> Some (PageReturn zeroHeartBeatDetails (Some e), tr3)
             | Some (Inr (succCount, errCount), tr3) \<Rightarrow>
                 (let hb' = hb\<lparr>CurrentPage := CurrentPage hb + 1,
                               PageToken := NextPageToken resp,
                               SuccessCount := SuccessCount hb + succCount,
                               ErrorCount := ErrorCount hb + errCount\<rparr>
                  in if length (PageToken hb') = 0 then
                       Some (PageBreak hb', tr3 @ [RecordHeartbeatCall hb'])
                     else Some (PageContinue hb', tr3 @ [RecordHeartbeatCall hb']))))"

partial_function (option) pageLoop ::
  "Env \<Rightarrow> BatchParams \<Rightarrow> HeartBeatDetails \<Rightarrow> call list
     \<Rightarrow> ((HeartBeatDetails \<times> err option) \<times> call list) option" where
  "pageLoop env batchParams hb tr =
     (case pageBody env batchParams hb tr of
        None \<Rightarrow> None
      | Some (PageReturn h e, tr') \<Rightarrow> Some ((h, e), tr')
      | Some (PageBreak h, tr') \<Rightarrow> Some ((h, None), tr')
      | Some (PageContinue h, tr') \<Rightarrow> pageLoop env batchParams h tr')"

declare pageLoop.simps [code]

text \<open>
  The entry of \<^verbatim>\<open>BatchActivity\<close>: the heartbeat details and \<^verbatim>\<open>startOver\<close>,
  with the calls made to find them.
\<close>

definition restoreHeartbeat :: "Env \<Rightarrow> HeartBeatDetails \<times> bool \<times> call list" where
  "restoreHeartbeat env =
     (if HasHeartbeatDetails env then
        (case GetHeartbeatDetails env of
           Inr h \<Rightarrow> (h, False, [HasHeartbeatDetailsCall, GetHeartbeatDetailsCall])
         | Inl (e, left) \<Rightarrow>
             (left, True,
              [HasHeartbeatDetailsCall, GetHeartbeatDetailsCall,
               IncCounterCall BatcherProcessorFailures,
               LogErrorCall ''Failed to recover from last heartbeat, start over from beginning''
                 e]))
      else (zeroHeartBeatDetails, True, [HasHeartbeatDetailsCall]))"

definition BatchActivity ::
  "Env \<Rightarrow> BatchParams \<Rightarrow> ((HeartBeatDetails \<times> err option) \<times> call list) option" where
  "BatchActivity env batchParams =
     (case restoreHeartbeat env of
        (hb, startOver, tr) \<Rightarrow>
          if startOver then
            (case CountWorkflow env tr (Query batchParams) of
               Inl e \<Rightarrow>
                 Some ((zeroHeartBeatDetails, Some e),
                       tr @ [CountWorkflowCall (Query batchParams)])
             | Inr n \<Rightarrow>
                 pageLoop env batchParams (hb\<lparr>TotalEstimate := n\<rparr>)
                   (tr @ [CountWorkflowCall (Query batchParams)]
                       @ replicate (nat (sint (Concurrency batchParams))) GoTaskProcessorCall))
          else
            pageLoop env batchParams hb
              (tr @ replicate (nat (sint (Concurrency batchParams))) GoTaskProcessorCall))"

subsection \<open>Reading a log\<close>

fun isCountCall :: "call \<Rightarrow> bool" where
  "isCountCall (CountWorkflowCall q) = True"
| "isCountCall c = False"

fun isMutationCall :: "call \<Rightarrow> bool" where
  "isMutationCall (TerminateWorkflowCall w r reason details) = True"
| "isMutationCall (CancelWorkflowCall w r) = True"
| "isMutationCall (SignalWorkflowCall w r name input) = True"
| "isMutationCall c = False"

fun scanToken :: "call \<Rightarrow> bytes option" where
  "scanToken (ScanWorkflowCall n tok q) = Some tok"
| "scanToken c = None"

text \<open>The heartbeat details that a call hands out: in a heartbeat or inside a task.\<close>

fun snapshotOf :: "call \<Rightarrow> HeartBeatDetails option" where
  "snapshotOf (RecordHeartbeatCall h) = Some h"
| "snapshotOf (SendTaskCall t) = Some (hbd t)"
| "snapshotOf c = None"

definition countCalls :: "call list \<Rightarrow> call list" where
  "countCalls tr = filter isCountCall tr"

definition mutations :: "call list \<Rightarrow> call list" where
  "mutations tr = filter isMutationCall tr"

definition scanTokens :: "call list \<Rightarrow> bytes list" where
  "scanTokens tr = List.map_filter scanToken tr"

definition snapshots :: "call list \<Rightarrow> HeartBeatDetails list" where
  "snapshots tr = List.map_filter snapshotOf tr"

subsection \<open>What the wait for a page leaves behind\<close>

text \<open>
  \<open>waitPost n s e tr y\<close> describes a result \<open>y\<close> of the wait loop started with the
  counters \<open>s\<close> and \<open>e\<close> and the log \<open>tr\<close>: the log has grown by the outcomes
  \<open>rs\<close> received, followed by the end of the context if that ended the wait; otherwise
  the counters have grown by the successes and the errors among \<open>rs\<close> and add up to
  \<open>n\<close>.
\<close>

definition waitPost ::
  "int64 \<Rightarrow> int64 \<Rightarrow> int64 \<Rightarrow> call list \<Rightarrow> (err + int64 \<times> int64) \<times> call list \<Rightarrow> bool" where
  "waitPost n s e tr y =
     (\<exists>rs. snd y = tr @ map (\<lambda>r. SelectCall (RespEv r)) rs @
                 (case fst y of Inl x \<Rightarrow> [SelectCall (DoneEv x)] | Inr c \<Rightarrow> []) \<and>
           (case fst y of Inl x \<Rightarrow> True
            | Inr c \<Rightarrow> fst c = s + of_nat (length (filter (\<lambda>r. r = None) rs)) \<and>
                       snd c = e + of_nat (length (filter (\<lambda>r. r \<noteq> None) rs)) \<and>
                       fst c + snd c = n))"

subsection \<open>Example requests and environments\<close>

definition exampleBatchTypes :: BatchTypes where
  "exampleBatchTypes = \<lparr>BatchTypeTerminate = 0, BatchTypeCancel = 1, BatchTypeSignal = 2\<rparr>"

text \<open>A cancel request that leaves every optional parameter unset, with 5 requests per second.\<close>

definition exampleRequest :: BatchParams where
  "exampleRequest =
     \<lparr>DomainName = ''dom'', Query = ''q'', Reason = ''cleanup'', BatchType = 1,
      TerminateParams = \<lparr>TerminateChildren = None\<rparr>,
      CancelParams = \<lparr>CancelChildren = None\<rparr>,
      SignalParams = \<lparr>SignalName = [], Input = []\<rparr>,
      RPS = 5, Concurrency = 0, AttemptsOnRetryableError = 3,
      ActivityHeartBeatTimeout = 0, NonRetryableErrors = [], nonRetryableErrors' = Map.empty\<rparr>"

text \<open>The same request with one task processor.\<close>

definition workingRequest :: BatchParams where
  "workingRequest = exampleRequest\<lparr>Concurrency := 1\<rparr>"

definition exampleRoot :: WorkflowExecution where
  "exampleRoot = \<lparr>WorkflowId = ''root'', RunId = ''r0''\<rparr>"

definition exampleTask :: taskDetail where
  "exampleTask = \<lparr>execution = exampleRoot, attempts = 0, hbd = zeroHeartBeatDetails\<rparr>"

text \<open>
  An environment with two pages of one execution each, the second page under the token
  \<open>''T1''\<close>; the execution \<open>root\<close> has one pending child; every call succeeds.
\<close>

definition exampleEnv :: Env where
  "exampleEnv =
     \<lparr>HasHeartbeatDetails = False,
      GetHeartbeatDetails = Inl (OtherError ''no details'', zeroHeartBeatDetails),
      CountWorkflow = (\<lambda>tr q. Inr 2),
      ScanWorkflow = (\<lambda>tr n tok q.
         if tok = [] then
           Inr \<lparr>Executions = [\<lparr>Execution = exampleRoot\<rparr>], NextPageToken = ''T1''\<rparr>
         else if tok = ''T1'' then
           Inr \<lparr>Executions = [\<lparr>Execution = \<lparr>WorkflowId = ''second'', RunId = ''r1''\<rparr>\<rparr>],
                NextPageToken = []\<rparr>
         else Inr \<lparr>Executions = [], NextPageToken = []\<rparr>),
      selectResp = (\<lambda>tr. Some (RespEv None)),
      isDone = (\<lambda>tr. False),
      limiterWait = (\<lambda>tr. None),
      TerminateWorkflow = (\<lambda>tr w r reason details. None),
      CancelWorkflow = (\<lambda>tr w r. None),
      SignalWorkflow = (\<lambda>tr w r name input. None),
      DescribeWorkflowExecution = (\<lambda>tr w r.
         Inr \<lparr>PendingChildren =
                (if w = ''root'' then [\<lparr>WorkflowID = ''child'', RunID = ''c0''\<rparr>] else [])\<rparr>)\<rparr>"

text \<open>
  The environment of a cancel request whose target is gone: cancel and describe both
  answer \<^verbatim>\<open>EntityNotExistsError\<close>.
\<close>

definition goneEnv :: Env where
  "goneEnv =
     exampleEnv\<lparr>CancelWorkflow := (\<lambda>tr w r. Some (EntityNotExistsError ''gone'')),
                DescribeWorkflowExecution := (\<lambda>tr w r. Inl (EntityNotExistsError ''gone''))\<rparr>"

text \<open>An environment in which every mutation fails with the error \<open>transient\<close>.\<close>

definition failingEnv :: Env where
  "failingEnv =
     exampleEnv\<lparr>TerminateWorkflow := (\<lambda>tr w r reason details. Some (OtherError ''transient'')),
                CancelWorkflow := (\<lambda>tr w r. Some (OtherError ''transient'')),
                SignalWorkflow := (\<lambda>tr w r name input. Some (OtherError ''transient''))\<rparr>"


text \<open>The calls of one reception of the example task in the failing environment.\<close>

definition failedRound :: "call list" where
  "failedRound =
     [IsDoneCall, LimiterWaitCall, CancelWorkflowCall ''root'' ''r0'',
      IncCounterCall BatcherProcessorFailures,
      LogErrorCall ''Failed to process batch operation task'' (OtherError ''transient'')]"

text \<open>
  The heartbeat details after the first page of the example environment and after its
  second and last page, and what each of the two pages adds to the log.
\<close>

definition resumedDetails :: HeartBeatDetails where
  "resumedDetails =
     \<lparr>PageToken = ''T1'', CurrentPage = 1, TotalEstimate = 2, SuccessCount = 1, ErrorCount = 0\<rparr>"

definition finalDetails :: HeartBeatDetails where
  "finalDetails =
     \<lparr>PageToken = [], CurrentPage = 2, TotalEstimate = 2, SuccessCount = 2, ErrorCount = 0\<rparr>"

definition firstPageLog :: "call list" where
  "firstPageLog =
     [ScanWorkflowCall 1000 [] ''q'',
      SendTaskCall \<lparr>execution = exampleRoot, attempts = 0,
                    hbd = zeroHeartBeatDetails\<lparr>TotalEstimate := 2\<rparr>\<rparr>,
      SelectCall (RespEv None),
      RecordHeartbeatCall resumedDetails]"

definition secondPageLog :: "call list" where
  "secondPageLog =
     [ScanWorkflowCall 1000 ''T1'' ''q'',
      SendTaskCall \<lparr>execution = \<lparr>WorkflowId = ''second'', RunId = ''r1''\<rparr>, attempts = 0,
                    hbd = resumedDetails\<rparr>,
      SelectCall (RespEv None),
      RecordHeartbeatCall finalDetails]"

text \<open>The example environment on re-entry, with the details of the first page recorded.\<close>

definition resumeEnv :: Env where
  "resumeEnv =
     exampleEnv\<lparr>HasHeartbeatDetails := True,
                GetHeartbeatDetails :=
                  Inr \<lparr>PageToken = ''T1'', CurrentPage = 1, TotalEstimate = 2,
                       SuccessCount = 1, ErrorCount = 0\<rparr>\<rparr>"

text \<open>
  The example environment on re-entry, with details whose decoding fails after it has
  written the page token, the page counter and the error counter into the destination.
\<close>

definition leftoverDetails :: HeartBeatDetails where
  "leftoverDetails =
     \<lparr>PageToken = ''T1'', CurrentPage = 7, TotalEstimate = 0, SuccessCount = 0, ErrorCount = 4\<rparr>"

definition partialRestoreEnv :: Env where
  "partialRestoreEnv =
     exampleEnv\<lparr>HasHeartbeatDetails := True,
                GetHeartbeatDetails := Inl (OtherError ''bad details'', leftoverDetails)\<rparr>"

text \<open>
  An environment with one page of two executions, where the first outcome on the response
  channel is a success and every later one the error \<open>transient\<close>.
\<close>

fun isSelectCall :: "call \<Rightarrow> bool" where
  "isSelectCall (SelectCall ev) = True"
| "isSelectCall c = False"

definition mixedEnv :: Env where
  "mixedEnv =
     exampleEnv\<lparr>ScanWorkflow := (\<lambda>tr n tok q.
          Inr \<lparr>Executions = [\<lparr>Execution = exampleRoot\<rparr>,
                             \<lparr>Execution = \<lparr>WorkflowId = ''second'', RunId = ''r1''\<rparr>\<rparr>],
               NextPageToken = []\<rparr>),
        selectResp := (\<lambda>tr.
          if filter isSelectCall tr = [] then Some (RespEv None)
          else Some (RespEv (Some (OtherError ''transient''))))\<rparr>"

text \<open>The example environment with a scan that fails on the second page.\<close>

definition brokenScanEnv :: Env where
  "brokenScanEnv =
     exampleEnv\<lparr>ScanWorkflow := (\<lambda>tr n tok q.
        if tok = [] then
          Inr \<lparr>Executions = [\<lparr>Execution = exampleRoot\<rparr>], NextPageToken = ''T1''\<rparr>
        else Inl (OtherError ''scan failed''))\<rparr>"

section \<open>Properties\<close>

subsection \<open>validateParams\<close>

text \<open>
  C8. \<^verbatim>\<open>validateParams\<close> returns an error exactly when the reason, the domain or the
  query is empty, when the batch type is none of terminate, cancel and signal, or when
  the batch type is signal and the signal name is empty; on every other input it
  returns \<^verbatim>\<open>nil\<close>.
\<close>

theorem validateParams_error_iff:
  "(validateParams bt params \<noteq> None) =
     (Reason params = [] \<or> DomainName params = [] \<or> Query params = [] \<or>
      (BatchType params \<noteq> BatchTypeTerminate bt \<and> BatchType params \<noteq> BatchTypeCancel bt
         \<and> BatchType params \<noteq> BatchTypeSignal bt) \<or>
      (BatchType params = BatchTypeSignal bt \<and> SignalName (SignalParams params) = []))"
  by (auto simp: validateParams_def)

theorem validateParams_error_iff_witness:
  "validateParams exampleBatchTypes exampleRequest = None \<and>
   validateParams exampleBatchTypes (exampleRequest\<lparr>BatchType := 2\<rparr>) \<noteq> None \<and>
   validateParams exampleBatchTypes (exampleRequest\<lparr>BatchType := 7\<rparr>) \<noteq> None \<and>
   validateParams exampleBatchTypes (exampleRequest\<lparr>Query := []\<rparr>) \<noteq> None"
  using validateParams_error_iff [of exampleBatchTypes exampleRequest]
    validateParams_error_iff [of exampleBatchTypes "exampleRequest\<lparr>BatchType := 2\<rparr>"]
    validateParams_error_iff [of exampleBatchTypes "exampleRequest\<lparr>BatchType := 7\<rparr>"]
    validateParams_error_iff [of exampleBatchTypes "exampleRequest\<lparr>Query := []\<rparr>"]
  by (simp add: exampleBatchTypes_def exampleRequest_def)

subsection \<open>setDefaultParams\<close>

text \<open>
  What \<^verbatim>\<open>setDefaultParams\<close> makes of an unset concurrency, and that it leaves
  \<^verbatim>\<open>CancelParams\<close> as it finds it.
\<close>

lemma setDefaultParams_concurrency:
  "Concurrency p \<le>s 0 \<Longrightarrow>
   Concurrency (setDefaultParams p) = goDiv (if RPS p \<le>s 0 then 50 else RPS p) 10"
  by (simp add: setDefaultParams_def Let_def defaultRPS_def defaultRPSPerConcurrency_def)

lemma setDefaultParams_CancelParams: "CancelParams (setDefaultParams p) = CancelParams p"
  by (simp add: setDefaultParams_def Let_def)

text \<open>
  C3. With the concurrency unset and 5 requests per second, \<^verbatim>\<open>setDefaultParams\<close>
  leaves the concurrency at \<open>5 / 10 = 0\<close>, where the larger of 1 and \<open>5 / 10\<close> is 1:
  the normalized concurrency is not at least 1.
\<close>

theorem setDefaultParams_concurrency_zero:
  "RPS (setDefaultParams exampleRequest) = 5 \<and>
   Concurrency (setDefaultParams exampleRequest) = 0 \<and>
   max 1 (sint (RPS (setDefaultParams exampleRequest)) sdiv 10) = 1"
  by (simp add: setDefaultParams_def exampleRequest_def Let_def defaultRPSPerConcurrency_def
      goDiv_def signed_divide_int_def word_sle_eq)

text \<open>
  C1. A cancel request with \<^verbatim>\<open>CancelChildren\<close> unset keeps it unset through
  \<^verbatim>\<open>setDefaultParams\<close>, and the processor then cancels the root execution alone: the
  pending child that the description of the root reports is not put on the queue.
\<close>

theorem cancel_children_unset_not_walked:
  "BatchType (setDefaultParams exampleRequest) = BatchTypeCancel exampleBatchTypes \<and>
   CancelChildren (CancelParams (setDefaultParams exampleRequest)) = None \<and>
   dispatchTask exampleBatchTypes exampleEnv (setDefaultParams exampleRequest) exampleTask [] =
     Some (None,
       [LimiterWaitCall, CancelWorkflowCall ''root'' ''r0'',
        DescribeWorkflowExecutionCall ''root'' ''r0'',
        RecordHeartbeatCall zeroHeartBeatDetails])"
  by (simp add: dispatchTask_def processTask_def processLoop.simps walkBody_def cancelFn_def
      setDefaultParams_def exampleRequest_def Let_def exampleBatchTypes_def exampleEnv_def
      exampleTask_def exampleRoot_def goDiv_def signed_divide_int_def word_sle_eq)

text \<open>
  The terminate case of the same \<^verbatim>\<open>switch\<close> does walk the child of the same root:
  \<^verbatim>\<open>TerminateChildren\<close> is set to true when unset.
\<close>

lemma terminate_children_unset_walked:
  "TerminateChildren (TerminateParams (setDefaultParams exampleRequest)) = Some True \<and>
   dispatchTask exampleBatchTypes exampleEnv
     (setDefaultParams (exampleRequest\<lparr>BatchType := 0\<rparr>)) exampleTask [] =
     Some (None,
       [LimiterWaitCall, TerminateWorkflowCall ''root'' ''r0'' ''cleanup'' [],
        DescribeWorkflowExecutionCall ''root'' ''r0'',
        LogInfoCall ''Found more child workflows to process'' 1,
        RecordHeartbeatCall zeroHeartBeatDetails,
        LimiterWaitCall, TerminateWorkflowCall ''child'' ''c0'' ''cleanup'' [],
        DescribeWorkflowExecutionCall ''child'' ''c0'',
        RecordHeartbeatCall zeroHeartBeatDetails])"
  by (simp add: dispatchTask_def processTask_def processLoop.simps walkBody_def terminateFn_def
      setDefaultParams_def exampleRequest_def Let_def exampleBatchTypes_def exampleEnv_def
      exampleTask_def exampleRoot_def goDiv_def signed_divide_int_def word_sle_eq)

subsection \<open>processTask\<close>

lemma mutations_append: "mutations (xs @ ys) = mutations xs @ mutations ys"
  by (simp add: mutations_def)

lemma processLoop_Nil: "processLoop env task a f [] tr = Some (None, tr)"
  by (subst processLoop.simps) simp

lemma processLoop_Cons:
  "processLoop env task a f (wfe # rest) tr =
     (case walkBody env task a f wfe rest tr of
        (WalkReturn e, tr') \<Rightarrow> Some (e, tr')
      | (WalkContinue wfs', tr') \<Rightarrow> processLoop env task a f wfs' tr')"
  by (subst processLoop.simps) simp

text \<open>
  C6. For the node \<open>wfe\<close> at the head of the queue, once the limiter has let it pass:
  a mutation that fails with any error other than \<^verbatim>\<open>EntityNotExistsError\<close> ends the
  task with that error. A mutation that succeeds or fails with
  \<^verbatim>\<open>EntityNotExistsError\<close> goes on to the description of the node, and then a
  description that fails with \<^verbatim>\<open>EntityNotExistsError\<close> drops the node from the queue
  without its children and the walk goes on with the rest; a description that fails with
  any other error ends the task with that error; a description that succeeds lets the
  walk go on, with the pending children appended when the policy is true.
\<close>

theorem walk_entity_not_exists:
  assumes "limiterWait env tr = None"
    and "procFn (WorkflowId wfe) (RunId wfe) (tr @ [LimiterWaitCall]) = (perr, tr2)"
  shows
    "(perr = Some (OtherError m) \<longrightarrow>
        processLoop env task a procFn (wfe # rest) tr = Some (Some (OtherError m), tr2)) \<and>
     ((perr = None \<or> perr = Some (EntityNotExistsError m)) \<longrightarrow>
        (DescribeWorkflowExecution env tr2 (WorkflowId wfe) (RunId wfe)
            = Inl (EntityNotExistsError m') \<longrightarrow>
           processLoop env task a procFn (wfe # rest) tr =
           processLoop env task a procFn rest
             (tr2 @ [DescribeWorkflowExecutionCall (WorkflowId wfe) (RunId wfe)])) \<and>
        (DescribeWorkflowExecution env tr2 (WorkflowId wfe) (RunId wfe)
            = Inl (OtherError m') \<longrightarrow>
           processLoop env task a procFn (wfe # rest) tr =
           Some (Some (OtherError m'),
                 tr2 @ [DescribeWorkflowExecutionCall (WorkflowId wfe) (RunId wfe)])) \<and>
        (DescribeWorkflowExecution env tr2 (WorkflowId wfe) (RunId wfe) = Inr resp \<longrightarrow>
           processLoop env task a procFn (wfe # rest) tr =
           processLoop env task a procFn
             (if a = Some True \<and> PendingChildren resp \<noteq> []
              then rest @ map (\<lambda>ch. \<lparr>WorkflowId = WorkflowID ch, RunId = RunID ch\<rparr>)
                            (PendingChildren resp)
              else rest)
             (tr2 @ DescribeWorkflowExecutionCall (WorkflowId wfe) (RunId wfe) #
                (if a = Some True \<and> PendingChildren resp \<noteq> []
                 then [LogInfoCall ''Found more child workflows to process''
                         (of_nat (length (PendingChildren resp)))]
                 else []) @ [RecordHeartbeatCall (hbd task)])))"
  using assms by (auto simp: processLoop_Cons walkBody_def)

theorem walk_entity_not_exists_witness:
  "processLoop goneEnv exampleTask (Some True) (cancelFn goneEnv exampleRequest) [exampleRoot] [] =
     Some (None, [LimiterWaitCall, CancelWorkflowCall ''root'' ''r0'',
                  DescribeWorkflowExecutionCall ''root'' ''r0''])"
proof -
  have w: "limiterWait goneEnv [] = None"
    by (simp add: goneEnv_def exampleEnv_def)
  have f: "cancelFn goneEnv exampleRequest (WorkflowId exampleRoot) (RunId exampleRoot)
             ([] @ [LimiterWaitCall]) =
           (Some (EntityNotExistsError ''gone''),
            [LimiterWaitCall, CancelWorkflowCall ''root'' ''r0''])"
    by (simp add: cancelFn_def goneEnv_def exampleEnv_def exampleRoot_def)
  have d: "DescribeWorkflowExecution goneEnv
             [LimiterWaitCall, CancelWorkflowCall ''root'' ''r0'']
             (WorkflowId exampleRoot) (RunId exampleRoot) = Inl (EntityNotExistsError ''gone'')"
    by (simp add: goneEnv_def exampleEnv_def)
  from walk_entity_not_exists [where env = goneEnv and tr = "[]" and wfe = exampleRoot
      and procFn = "cancelFn goneEnv exampleRequest" and m = "''gone''" and m' = "''gone''"
      and task = exampleTask and a = "Some True" and rest = "[]", OF w f] d
  show ?thesis
    by (simp add: processLoop_Nil exampleRoot_def)
qed

subsection \<open>startTaskProcessor\<close>



lemma followTask_unfold:
  "followTask bt env p t tr =
     (case taskProcessorBody bt env p t tr of
        None \<Rightarrow> None
      | Some (WorkerReturn, tr') \<Rightarrow> None
      | Some (RespChSend r, tr') \<Rightarrow> Some (r, tr')
      | Some (TaskChSend task', tr') \<Rightarrow> followTask bt env p task' tr')"
  by (subst followTask.simps) simp

text \<open>
  One reception of a task whose mutation fails with \<open>OtherError m\<close>, a message that
  is not among the non-retryable ones.
\<close>

lemma failing_step:
  assumes bt: "BatchType p = BatchTypeTerminate bt \<or> BatchType p = BatchTypeCancel bt \<or>
               BatchType p = BatchTypeSignal bt"
    and notDone: "\<forall>tr. \<not> isDone env tr"
    and lim: "\<forall>tr. limiterWait env tr = None"
    and fail: "\<forall>tr w r reason d. TerminateWorkflow env tr w r reason d = Some (OtherError m)"
      "\<forall>tr w r. CancelWorkflow env tr w r = Some (OtherError m)"
      "\<forall>tr w r n i. SignalWorkflow env tr w r n i = Some (OtherError m)"
    and retryable: "nonRetryableErrors' p m = None"
  shows "\<exists>c. isMutationCall c \<and>
           taskProcessorBody bt env p t tr =
             Some (if AttemptsOnRetryableError p \<le>s attempts t
                   then RespChSend (Some (OtherError m))
                   else TaskChSend (t\<lparr>attempts := attempts t + 1\<rparr>),
                   tr @ [IsDoneCall, LimiterWaitCall, c,
                         IncCounterCall BatcherProcessorFailures,
                         LogErrorCall ''Failed to process batch operation task'' (OtherError m)])"
proof -
  have "\<exists>c. isMutationCall c \<and>
          dispatchTask bt env p t (tr @ [IsDoneCall]) =
            Some (Some (OtherError m), tr @ [IsDoneCall, LimiterWaitCall, c])"
    using bt lim fail
    by (auto simp: dispatchTask_def processTask_def processLoop_Cons walkBody_def
        terminateFn_def cancelFn_def signalFn_def)
  then obtain c where c: "isMutationCall c"
    "dispatchTask bt env p t (tr @ [IsDoneCall]) =
            Some (Some (OtherError m), tr @ [IsDoneCall, LimiterWaitCall, c])"
    by blast
  show ?thesis
    using c notDone retryable
    by (intro exI [of _ c]) (simp add: taskProcessorBody_def Let_def)
qed

text \<open>Below another value, \<open>+ 1\<close> does not wrap around.\<close>

lemma sint_succ_below:
  fixes a b :: int64
  assumes "a <s b"
  shows "sint (a + 1) = sint a + 1"
proof -
  have "sint b < 2 ^ 63" and "- (2 ^ 63) \<le> sint a"
    using sint_lt [of b] sint_ge [of a] by simp_all
  with assms have "- (2 ^ 63) \<le> sint a + 1" and "sint a + 1 < 2 ^ 63"
    by (simp_all add: word_sless_alt)
  then have "signed_take_bit 63 (sint a + 1) = sint a + 1"
    by (simp add: signed_take_bit_int_eq_self)
  then show ?thesis
    by (simp add: sint_word_ariths)
qed

lemma failing_follow:
  assumes bt: "BatchType p = BatchTypeTerminate bt \<or> BatchType p = BatchTypeCancel bt \<or>
               BatchType p = BatchTypeSignal bt"
    and notDone: "\<forall>tr. \<not> isDone env tr"
    and lim: "\<forall>tr. limiterWait env tr = None"
    and fail: "\<forall>tr w r reason d. TerminateWorkflow env tr w r reason d = Some (OtherError m)"
      "\<forall>tr w r. CancelWorkflow env tr w r = Some (OtherError m)"
      "\<forall>tr w r n i. SignalWorkflow env tr w r n i = Some (OtherError m)"
    and retryable: "nonRetryableErrors' p m = None"
  shows "nat (sint (AttemptsOnRetryableError p) - sint (attempts t)) = n \<Longrightarrow>
         attempts t \<le>s AttemptsOnRetryableError p \<Longrightarrow>
         \<exists>tr'. followTask bt env p t tr = Some (Some (OtherError m), tr') \<and>
           length (mutations tr') = length (mutations tr) + n + 1"
proof (induction n arbitrary: t tr)
  case 0
  then have "AttemptsOnRetryableError p \<le>s attempts t"
    by (simp add: word_sle_eq)
  with failing_step [OF assms, of t tr] show ?case
    by (subst followTask_unfold) (auto simp: mutations_def)
next
  case (Suc n)
  let ?t' = "t\<lparr>attempts := attempts t + 1\<rparr>"
  from Suc.prems have lt: "attempts t <s AttemptsOnRetryableError p"
    by (simp add: word_sless_alt)
  then have nle: "\<not> AttemptsOnRetryableError p \<le>s attempts t"
    by (simp add: word_sle_eq word_sless_alt)
  note succ = sint_succ_below [OF lt]
  from failing_step [OF assms, of t tr] nle obtain c where c: "isMutationCall c"
    "taskProcessorBody bt env p t tr =
       Some (TaskChSend ?t',
             tr @ [IsDoneCall, LimiterWaitCall, c, IncCounterCall BatcherProcessorFailures,
                   LogErrorCall ''Failed to process batch operation task'' (OtherError m)])"
    by auto
  have "nat (sint (AttemptsOnRetryableError p) - sint (attempts ?t')) = n"
    and "attempts ?t' \<le>s AttemptsOnRetryableError p"
    using Suc.prems lt succ by (simp_all add: word_sle_eq word_sless_alt)
  from Suc.IH [OF this, of "tr @ [IsDoneCall, LimiterWaitCall, c,
       IncCounterCall BatcherProcessorFailures,
       LogErrorCall ''Failed to process batch operation task'' (OtherError m)]"] c
  show ?case
    by (subst followTask_unfold) (auto simp: mutations_def)
qed

lemma waitBatch_unfold:
  "waitBatch env batchCount succCount errCount tr =
     (case selectResp env tr of
        None \<Rightarrow> None
      | Some (DoneEv e) \<Rightarrow> Some (Inl e, tr @ [SelectCall (DoneEv e)])
      | Some (RespEv r) \<Rightarrow>
          (if (if r = None then succCount + 1 else succCount)
                + (if r = None then errCount else errCount + 1) = batchCount then
             Some (Inr (if r = None then succCount + 1 else succCount,
                        if r = None then errCount else errCount + 1),
                   tr @ [SelectCall (RespEv r)])
           else
             waitBatch env batchCount
               (if r = None then succCount + 1 else succCount)
               (if r = None then errCount else errCount + 1)
               (tr @ [SelectCall (RespEv r)])))"
  by (subst waitBatch.simps) (simp split: option.splits selectEvent.splits)

text \<open>
  The retries in general. Let every mutation fail with \<open>OtherError m\<close>, a message that
  is not among the non-retryable ones, with the context alive and the limiter letting
  every call pass. A processor that receives the task sends the error on the response
  channel exactly when \<open>attempts\<close> has reached \<^verbatim>\<open>AttemptsOnRetryableError\<close>, and
  otherwise puts the task back with \<open>attempts + 1\<close>; each reception calls the mutation
  once. A task with \<open>attempts\<close> at most \<^verbatim>\<open>AttemptsOnRetryableError\<close> therefore
  has its mutation called \<open>AttemptsOnRetryableError - attempts + 1\<close> times before the
  error reaches the response channel, where the wait for a page of one task counts it
  as one error.
\<close>

lemma retries_until_attempts_reached:
  assumes bt: "BatchType p = BatchTypeTerminate bt \<or> BatchType p = BatchTypeCancel bt \<or>
               BatchType p = BatchTypeSignal bt"
    and notDone: "\<forall>tr. \<not> isDone env tr"
    and lim: "\<forall>tr. limiterWait env tr = None"
    and fail: "\<forall>tr w r reason d. TerminateWorkflow env tr w r reason d = Some (OtherError m)"
      "\<forall>tr w r. CancelWorkflow env tr w r = Some (OtherError m)"
      "\<forall>tr w r n i. SignalWorkflow env tr w r n i = Some (OtherError m)"
    and retryable: "nonRetryableErrors' p m = None"
  shows
    "(AttemptsOnRetryableError p \<le>s attempts t \<longrightarrow>
        (\<exists>tr'. taskProcessorBody bt env p t tr = Some (RespChSend (Some (OtherError m)), tr') \<and>
           length (mutations tr') = length (mutations tr) + 1)) \<and>
     (attempts t <s AttemptsOnRetryableError p \<longrightarrow>
        (\<exists>tr'. taskProcessorBody bt env p t tr =
                  Some (TaskChSend (t\<lparr>attempts := attempts t + 1\<rparr>), tr') \<and>
           length (mutations tr') = length (mutations tr) + 1)) \<and>
     (attempts t \<le>s AttemptsOnRetryableError p \<longrightarrow>
        (\<exists>tr'. followTask bt env p t tr = Some (Some (OtherError m), tr') \<and>
           length (mutations tr') =
             length (mutations tr) +
               nat (sint (AttemptsOnRetryableError p) - sint (attempts t)) + 1)) \<and>
     (\<forall>env2 tr2. selectResp env2 tr2 = Some (RespEv (Some (OtherError m))) \<longrightarrow>
        waitBatch env2 1 0 0 tr2 =
          Some (Inr (0, 1), tr2 @ [SelectCall (RespEv (Some (OtherError m)))]))"
proof -
  from failing_step [OF assms, of t tr] obtain c where c: "isMutationCall c"
    "taskProcessorBody bt env p t tr =
       Some (if AttemptsOnRetryableError p \<le>s attempts t
             then RespChSend (Some (OtherError m))
             else TaskChSend (t\<lparr>attempts := attempts t + 1\<rparr>),
             tr @ [IsDoneCall, LimiterWaitCall, c, IncCounterCall BatcherProcessorFailures,
                   LogErrorCall ''Failed to process batch operation task'' (OtherError m)])"
    by blast
  have a: "AttemptsOnRetryableError p \<le>s attempts t \<longrightarrow>
        (\<exists>tr'. taskProcessorBody bt env p t tr = Some (RespChSend (Some (OtherError m)), tr') \<and>
           length (mutations tr') = length (mutations tr) + 1)"
    using c by (auto simp: mutations_def word_sle_eq word_sless_alt)
  have b: "attempts t <s AttemptsOnRetryableError p \<longrightarrow>
        (\<exists>tr'. taskProcessorBody bt env p t tr =
                  Some (TaskChSend (t\<lparr>attempts := attempts t + 1\<rparr>), tr') \<and>
           length (mutations tr') = length (mutations tr) + 1)"
    using c by (auto simp: mutations_def word_sle_eq word_sless_alt)
  have d: "attempts t \<le>s AttemptsOnRetryableError p \<longrightarrow>
        (\<exists>tr'. followTask bt env p t tr = Some (Some (OtherError m), tr') \<and>
           length (mutations tr') =
             length (mutations tr) +
               nat (sint (AttemptsOnRetryableError p) - sint (attempts t)) + 1)"
    using failing_follow [OF assms refl, of t tr] by blast
  have e: "\<forall>env2 tr2. selectResp env2 tr2 = Some (RespEv (Some (OtherError m))) \<longrightarrow>
        waitBatch env2 1 0 0 tr2 =
          Some (Inr (0, 1), tr2 @ [SelectCall (RespEv (Some (OtherError m)))])"
    by (subst waitBatch_unfold) simp
  from a b d e show ?thesis by blast
qed

text \<open>
  C2. With \<^verbatim>\<open>AttemptsOnRetryableError = 3\<close> and a mutation that always fails with the
  retryable error \<open>transient\<close>, a task at \<open>attempts = 2\<close>, which is \<open>3 - 1\<close>, is put
  back on the task channel with \<open>attempts = 3\<close> and not reported; followed from
  \<open>attempts = 0\<close> the task has its mutation called 4 times, not 3, before the error
  reaches the response channel.
\<close>

theorem retry_exhaustion_one_try_too_many:
  "AttemptsOnRetryableError workingRequest = 3 \<and>
   nonRetryableErrors' workingRequest ''transient'' = None \<and>
   taskProcessorBody exampleBatchTypes failingEnv workingRequest
       (exampleTask\<lparr>attempts := 2\<rparr>) [] =
     Some (TaskChSend (exampleTask\<lparr>attempts := 3\<rparr>), failedRound) \<and>
   followTask exampleBatchTypes failingEnv workingRequest exampleTask [] =
     Some (Some (OtherError ''transient''),
           failedRound @ failedRound @ failedRound @ failedRound) \<and>
   length (mutations (failedRound @ failedRound @ failedRound @ failedRound)) = 4"
proof -
  have step: "\<And>n tr. taskProcessorBody exampleBatchTypes failingEnv workingRequest
       (exampleTask\<lparr>attempts := n\<rparr>) tr =
     Some (if 3 \<le>s n then RespChSend (Some (OtherError ''transient''))
           else TaskChSend (exampleTask\<lparr>attempts := n + 1\<rparr>), tr @ failedRound)"
    by (simp add: taskProcessorBody_def dispatchTask_def processTask_def processLoop_Cons
        walkBody_def cancelFn_def failingEnv_def exampleEnv_def workingRequest_def
        exampleRequest_def exampleBatchTypes_def exampleTask_def exampleRoot_def
        failedRound_def Let_def)
  have t0: "exampleTask = exampleTask\<lparr>attempts := 0\<rparr>"
    by (simp add: exampleTask_def)
  have le: "\<not> (3::int64) \<le>s 0" "\<not> (3::int64) \<le>s 1" "\<not> (3::int64) \<le>s 2" "(3::int64) \<le>s 3"
    by (simp_all add: word_sle_eq)
  have "followTask exampleBatchTypes failingEnv workingRequest (exampleTask\<lparr>attempts := 0\<rparr>) [] =
     Some (Some (OtherError ''transient''),
           failedRound @ failedRound @ failedRound @ failedRound)"
    apply (subst followTask_unfold, simp add: step le)
    apply (subst followTask_unfold, simp add: step le)
    apply (subst followTask_unfold, simp add: step le)
    apply (subst followTask_unfold, simp add: step le)
    done
  with t0 have f: "followTask exampleBatchTypes failingEnv workingRequest exampleTask [] =
     Some (Some (OtherError ''transient''),
           failedRound @ failedRound @ failedRound @ failedRound)"
    by simp
  have a: "AttemptsOnRetryableError workingRequest = 3"
    "nonRetryableErrors' workingRequest ''transient'' = None"
    by (simp_all add: workingRequest_def exampleRequest_def)
  have l: "length (mutations (failedRound @ failedRound @ failedRound @ failedRound)) = 4"
    by (simp add: mutations_def failedRound_def)
  from a step [of 2 "[]"] le f l show ?thesis by simp
qed

subsection \<open>BatchActivity\<close>

lemma countCalls_append: "countCalls (xs @ ys) = countCalls xs @ countCalls ys"
  by (simp add: countCalls_def)

lemma snapshots_append: "snapshots (xs @ ys) = snapshots xs @ snapshots ys"
  by (simp add: snapshots_def map_filter_def)

lemma scanTokens_append: "scanTokens (xs @ ys) = scanTokens xs @ scanTokens ys"
  by (simp add: scanTokens_def map_filter_def)

lemma log_Nil: "countCalls [] = []" "scanTokens [] = []" "snapshots [] = []"
  by (simp_all add: countCalls_def scanTokens_def snapshots_def map_filter_def)

lemma log_Cons:
  "countCalls (c # xs) = (if isCountCall c then [c] else []) @ countCalls xs"
  "scanTokens (c # xs) = (case scanToken c of None \<Rightarrow> [] | Some t \<Rightarrow> [t]) @ scanTokens xs"
  "snapshots (c # xs) = (case snapshotOf c of None \<Rightarrow> [] | Some h \<Rightarrow> [h]) @ snapshots xs"
  by (auto simp: countCalls_def scanTokens_def snapshots_def map_filter_def)

lemmas log_simps = log_Nil log_Cons countCalls_append scanTokens_append snapshots_append

text \<open>The next counters of the wait loop after the outcome \<open>r\<close>.\<close>

lemma waitBatch_Resp:
  assumes "selectResp env tr = Some (RespEv r)"
  shows "waitBatch env n s e tr =
     (if (if r = None then s + 1 else s) + (if r = None then e else e + 1) = n
      then Some (Inr (if r = None then s + 1 else s, if r = None then e else e + 1),
                 tr @ [SelectCall (RespEv r)])
      else waitBatch env n (if r = None then s + 1 else s) (if r = None then e else e + 1)
             (tr @ [SelectCall (RespEv r)]))"
  by (subst waitBatch.simps) (simp add: assms)

lemma waitBatch_Done:
  assumes "selectResp env tr = Some (DoneEv x)"
  shows "waitBatch env n s e tr = Some (Inl x, tr @ [SelectCall (DoneEv x)])"
  by (subst waitBatch.simps) (simp add: assms)

lemma waitBatch_None:
  assumes "selectResp env tr = None"
  shows "waitBatch env n s e tr = None"
  by (subst waitBatch.simps) (simp add: assms)

lemma waitPost_step:
  assumes "waitPost n (if r = None then s + 1 else s) (if r = None then e else e + 1)
             (tr @ [SelectCall (RespEv r)]) y"
  shows "waitPost n s e tr y"
proof -
  from assms obtain rs where rs:
    "snd y = (tr @ [SelectCall (RespEv r)]) @ map (\<lambda>r. SelectCall (RespEv r)) rs @
                 (case fst y of Inl x \<Rightarrow> [SelectCall (DoneEv x)] | Inr c \<Rightarrow> [])"
    "case fst y of Inl x \<Rightarrow> True
            | Inr c \<Rightarrow> fst c = (if r = None then s + 1 else s) + of_nat (length (filter (\<lambda>r. r = None) rs)) \<and>
                       snd c = (if r = None then e else e + 1) + of_nat (length (filter (\<lambda>r. r \<noteq> None) rs)) \<and>
                       fst c + snd c = n"
    unfolding waitPost_def by blast
  show ?thesis
    unfolding waitPost_def
  proof (intro exI [of _ "r # rs"] conjI)
    show "snd y = tr @ map (\<lambda>r. SelectCall (RespEv r)) (r # rs) @
                 (case fst y of Inl x \<Rightarrow> [SelectCall (DoneEv x)] | Inr c \<Rightarrow> [])"
      using rs(1) by simp
    show "case fst y of Inl x \<Rightarrow> True
            | Inr c \<Rightarrow> fst c = s + of_nat (length (filter (\<lambda>r. r = None) (r # rs))) \<and>
                       snd c = e + of_nat (length (filter (\<lambda>r. r \<noteq> None) (r # rs))) \<and>
                       fst c + snd c = n"
      using rs(2) by (cases "fst y"; cases "r = None"; simp)
  qed
qed

lemma waitBatch_shape:
  assumes "waitBatch env n s e tr = Some y"
  shows "waitPost n s e tr y"
proof (rule waitBatch.raw_induct
    [where P = "\<lambda>env n s e tr y. waitPost n s e tr y", OF _ assms], goal_cases)
  case (1 f env n s e tr y)
  show ?case
  proof (cases "selectResp env tr")
    case None
    with 1(2) show ?thesis by simp
  next
    case (Some ev)
    show ?thesis
    proof (cases ev)
      case (DoneEv x)
      with Some 1(2) have "y = (Inl x, tr @ [SelectCall (DoneEv x)])" by simp
      then show ?thesis
        unfolding waitPost_def by (intro exI [of _ "[]"]) simp
    next
      case (RespEv r)
      let ?s = "if r = None then s + 1 else s" and ?e = "if r = None then e else e + 1"
      show ?thesis
      proof (cases "?s + ?e = n")
        case True
        with Some RespEv 1(2) have "y = (Inr (?s, ?e), tr @ [SelectCall (RespEv r)])"
          by simp
        with True show ?thesis
          unfolding waitPost_def by (intro exI [of _ "[r]"]) (cases "r = None"; simp)
      next
        case False
        with Some RespEv 1(2)
        have "f env n ?s ?e (tr @ [SelectCall (RespEv r)]) = Some y"
          by simp
        from 1(1) [OF this] show ?thesis by (rule waitPost_step)
      qed
    qed
  qed
qed

lemma waitPost_log:
  assumes "waitPost n s e tr y"
  shows "countCalls (snd y) = countCalls tr" and "snapshots (snd y) = snapshots tr"
    and "scanTokens (snd y) = scanTokens tr"
proof -
  from assms obtain rs where rs:
    "snd y = tr @ map (\<lambda>r. SelectCall (RespEv r)) rs @
                 (case fst y of Inl x \<Rightarrow> [SelectCall (DoneEv x)] | Inr c \<Rightarrow> [])"
    unfolding waitPost_def by blast
  have c: "countCalls (map (\<lambda>r. SelectCall (RespEv r)) rs) = []"
    by (induction rs) (simp_all add: countCalls_def)
  have h: "snapshots (map (\<lambda>r. SelectCall (RespEv r)) rs) = []"
    by (induction rs) (simp_all add: snapshots_def map_filter_def)
  have t: "scanTokens (map (\<lambda>r. SelectCall (RespEv r)) rs) = []"
    by (induction rs) (simp_all add: scanTokens_def map_filter_def)
  show "countCalls (snd y) = countCalls tr"
    unfolding rs by (cases "fst y") (simp_all add: countCalls_append c, simp_all add: countCalls_def)
  show "snapshots (snd y) = snapshots tr"
    unfolding rs
    by (cases "fst y") (simp_all add: snapshots_append h, simp_all add: snapshots_def map_filter_def)
  show "scanTokens (snd y) = scanTokens tr"
    unfolding rs
    by (cases "fst y") (simp_all add: scanTokens_append t, simp_all add: scanTokens_def map_filter_def)
qed

lemma sendTask_log:
  "countCalls (map (\<lambda>wfe. SendTaskCall (g wfe)) xs) = []"
  "scanTokens (map (\<lambda>wfe. SendTaskCall (g wfe)) xs) = []"
  "snapshots (map (\<lambda>wfe. SendTaskCall (g wfe)) xs) = map (\<lambda>wfe. hbd (g wfe)) xs"
  by (induction xs) (simp_all add: countCalls_def scanTokens_def snapshots_def map_filter_def)

text \<open>The outcomes of one pass of the outer loop.\<close>

lemma pageBody_cases:
  assumes "pageBody env p hb tr = Some (res, tr')"
  obtains
    (scanError) x where "ScanWorkflow env tr pageSize (PageToken hb) (Query p) = Inl x"
      "res = PageReturn zeroHeartBeatDetails (Some x)"
      "tr' = tr @ [ScanWorkflowCall pageSize (PageToken hb) (Query p)]"
  | (emptyPage) resp where "ScanWorkflow env tr pageSize (PageToken hb) (Query p) = Inr resp"
      "(of_nat (length (Executions resp)) :: int64) \<le>s 0" "res = PageBreak hb"
      "tr' = tr @ [ScanWorkflowCall pageSize (PageToken hb) (Query p)]"
  | (ctxDone) resp x where "ScanWorkflow env tr pageSize (PageToken hb) (Query p) = Inr resp"
      "\<not> (of_nat (length (Executions resp)) :: int64) \<le>s 0"
      "waitBatch env (of_nat (length (Executions resp))) 0 0
         (tr @ [ScanWorkflowCall pageSize (PageToken hb) (Query p)]
             @ map (\<lambda>wfe. SendTaskCall \<lparr>execution = Execution wfe, attempts = 0, hbd = hb\<rparr>)
                 (Executions resp)) = Some (Inl x, tr')"
      "res = PageReturn zeroHeartBeatDetails (Some x)"
  | (advance) resp succCount errCount tr3 where
      "ScanWorkflow env tr pageSize (PageToken hb) (Query p) = Inr resp"
      "\<not> (of_nat (length (Executions resp)) :: int64) \<le>s 0"
      "waitBatch env (of_nat (length (Executions resp))) 0 0
         (tr @ [ScanWorkflowCall pageSize (PageToken hb) (Query p)]
             @ map (\<lambda>wfe. SendTaskCall \<lparr>execution = Execution wfe, attempts = 0, hbd = hb\<rparr>)
                 (Executions resp)) = Some (Inr (succCount, errCount), tr3)"
      "res = (if NextPageToken resp = []
              then PageBreak (hb\<lparr>CurrentPage := CurrentPage hb + 1,
                                 PageToken := NextPageToken resp,
                                 SuccessCount := SuccessCount hb + succCount,
                                 ErrorCount := ErrorCount hb + errCount\<rparr>)
              else PageContinue (hb\<lparr>CurrentPage := CurrentPage hb + 1,
                                 PageToken := NextPageToken resp,
                                 SuccessCount := SuccessCount hb + succCount,
                                 ErrorCount := ErrorCount hb + errCount\<rparr>))"
      "tr' = tr3 @ [RecordHeartbeatCall (hb\<lparr>CurrentPage := CurrentPage hb + 1,
                                 PageToken := NextPageToken resp,
                                 SuccessCount := SuccessCount hb + succCount,
                                 ErrorCount := ErrorCount hb + errCount\<rparr>)]"
proof (cases "ScanWorkflow env tr pageSize (PageToken hb) (Query p)")
  case (Inl x)
  with assms scanError show ?thesis
    by (simp add: pageBody_def)
next
  case (Inr resp)
  show ?thesis
  proof (cases "(of_nat (length (Executions resp)) :: int64) \<le>s 0")
    case True
    with Inr assms emptyPage show ?thesis
      by (simp add: pageBody_def)
  next
    case False
    let ?w = "waitBatch env (of_nat (length (Executions resp))) 0 0
         (tr @ [ScanWorkflowCall pageSize (PageToken hb) (Query p)]
             @ map (\<lambda>wfe. SendTaskCall \<lparr>execution = Execution wfe, attempts = 0, hbd = hb\<rparr>)
                 (Executions resp))"
    from Inr False assms obtain r tr3 where w: "?w = Some (r, tr3)"
      by (cases ?w) (auto simp: pageBody_def)
    show ?thesis
    proof (cases r)
      case (Inl x)
      with Inr False assms w ctxDone [of resp x] show ?thesis
        by (simp add: pageBody_def)
    next
      case (Inr c)
      obtain succCount errCount where c: "c = (succCount, errCount)"
        by (cases c)
      from \<open>ScanWorkflow env tr pageSize (PageToken hb) (Query p) = Inr resp\<close> False assms w
        Inr c advance [of resp succCount errCount tr3]
      show ?thesis
        by (simp add: pageBody_def Let_def split: if_splits)
    qed
  qed
qed

lemma pageBody_log:
  assumes "pageBody env p hb tr = Some (res, tr')"
  shows "countCalls tr' = countCalls tr"
    and "scanTokens tr' = scanTokens tr @ [PageToken hb]"
    and "\<forall>x\<in>set (snapshots tr'). x \<in> set (snapshots tr) \<or> TotalEstimate x = TotalEstimate hb"
proof -
  from assms
  have "countCalls tr' = countCalls tr \<and> scanTokens tr' = scanTokens tr @ [PageToken hb] \<and>
    (\<forall>x\<in>set (snapshots tr'). x \<in> set (snapshots tr) \<or> TotalEstimate x = TotalEstimate hb)"
  proof (cases rule: pageBody_cases)
    case (scanError x)
    then show ?thesis by (simp add: log_simps)
  next
    case (emptyPage resp)
    then show ?thesis by (simp add: log_simps)
  next
    case (ctxDone resp x)
    from waitPost_log [OF waitBatch_shape [OF ctxDone(3)]]
    show ?thesis by (auto simp: log_simps sendTask_log)
  next
    case (advance resp succCount errCount tr3)
    from waitPost_log [OF waitBatch_shape [OF advance(3)]] advance(5)
    show ?thesis by (auto simp: log_simps sendTask_log)
  qed
  then show "countCalls tr' = countCalls tr"
    and "scanTokens tr' = scanTokens tr @ [PageToken hb]"
    and "\<forall>x\<in>set (snapshots tr'). x \<in> set (snapshots tr) \<or> TotalEstimate x = TotalEstimate hb"
    by blast+
qed

lemma pageBody_result:
  assumes "pageBody env p hb tr = Some (res, tr')"
  shows "res = PageReturn h r \<Longrightarrow> h = zeroHeartBeatDetails \<and> r \<noteq> None"
    and "res = PageBreak h \<or> res = PageContinue h \<Longrightarrow> TotalEstimate h = TotalEstimate hb"
  using assms by (cases rule: pageBody_cases; auto split: if_splits)+

lemma pageLoop_unfold:
  "pageLoop env p hb tr =
     (case pageBody env p hb tr of
        None \<Rightarrow> None
      | Some (PageReturn h e, tr') \<Rightarrow> Some ((h, e), tr')
      | Some (PageBreak h, tr') \<Rightarrow> Some ((h, None), tr')
      | Some (PageContinue h, tr') \<Rightarrow> pageLoop env p h tr')"
  by (subst pageLoop.simps) simp

lemma pageLoop_step_cases:
  assumes "(case pageBody env p hb tr of
        None \<Rightarrow> None
      | Some (PageReturn h e, tr') \<Rightarrow> Some ((h, e), tr')
      | Some (PageBreak h, tr') \<Rightarrow> Some ((h, None), tr')
      | Some (PageContinue h, tr') \<Rightarrow> f env p h tr') = Some y"
  obtains (ret) h e tr1 where "pageBody env p hb tr = Some (PageReturn h e, tr1)"
      "y = ((h, e), tr1)"
  | (brk) h tr1 where "pageBody env p hb tr = Some (PageBreak h, tr1)" "y = ((h, None), tr1)"
  | (cont) h tr1 where "pageBody env p hb tr = Some (PageContinue h, tr1)"
      "f env p h tr1 = Some y"
  using assms by (auto split: option.splits prod.splits pageResult.splits)

lemma pageLoop_post:
  assumes "pageLoop env p hb tr = Some y"
  shows "countCalls (snd y) = countCalls tr \<and>
         (\<exists>ts. scanTokens (snd y) = scanTokens tr @ PageToken hb # ts) \<and>
         (snd (fst y) \<noteq> None \<longrightarrow> fst (fst y) = zeroHeartBeatDetails) \<and>
         (snd (fst y) = None \<longrightarrow> TotalEstimate (fst (fst y)) = TotalEstimate hb) \<and>
         (\<forall>x\<in>set (snapshots (snd y)).
            x \<in> set (snapshots tr) \<or> TotalEstimate x = TotalEstimate hb)"
proof (rule pageLoop.raw_induct
    [where P = "\<lambda>env p hb tr y. countCalls (snd y) = countCalls tr \<and>
         (\<exists>ts. scanTokens (snd y) = scanTokens tr @ PageToken hb # ts) \<and>
         (snd (fst y) \<noteq> None \<longrightarrow> fst (fst y) = zeroHeartBeatDetails) \<and>
         (snd (fst y) = None \<longrightarrow> TotalEstimate (fst (fst y)) = TotalEstimate hb) \<and>
         (\<forall>x\<in>set (snapshots (snd y)).
            x \<in> set (snapshots tr) \<or> TotalEstimate x = TotalEstimate hb)", OF _ assms],
    goal_cases)
  case (1 f env p hb tr y)
  from 1(2) show ?case
  proof (cases rule: pageLoop_step_cases)
    case (ret h e tr1)
    from pageBody_log [OF ret(1)] pageBody_result(1) [OF ret(1) refl] ret(2)
    show ?thesis by auto
  next
    case (brk h tr1)
    from pageBody_log [OF brk(1)] pageBody_result(2) [OF brk(1), of h] brk(2)
    show ?thesis by auto
  next
    case (cont h tr1)
    from 1(1) [OF cont(2)] pageBody_log [OF cont(1)] pageBody_result(2) [OF cont(1), of h]
    show ?thesis by auto
  qed
qed

lemma BatchActivity_restored:
  assumes "HasHeartbeatDetails env" and "GetHeartbeatDetails env = Inr h0"
  shows "BatchActivity env p =
     pageLoop env p h0
       ([HasHeartbeatDetailsCall, GetHeartbeatDetailsCall]
          @ replicate (nat (sint (Concurrency p))) GoTaskProcessorCall)"
  using assms by (simp add: BatchActivity_def restoreHeartbeat_def)

lemma restoreHeartbeat_log:
  assumes "restoreHeartbeat env = (hb, startOver, tr0)"
  shows "countCalls tr0 = []" and "scanTokens tr0 = []" and "snapshots tr0 = []"
  using assms
  by (auto simp: restoreHeartbeat_def log_simps split: if_splits sum.splits prod.splits)

lemma replicate_log:
  "countCalls (replicate k GoTaskProcessorCall) = []"
  "scanTokens (replicate k GoTaskProcessorCall) = []"
  "snapshots (replicate k GoTaskProcessorCall) = []"
  by (induction k) (simp_all add: log_simps)

text \<open>What a returned run of the activity has logged and returned.\<close>

lemma BatchActivity_post:
  assumes "restoreHeartbeat env = (hb, startOver, tr0)"
    and "BatchActivity env p = Some ((h, r), tr)"
  shows "countCalls tr = (if startOver then [CountWorkflowCall (Query p)] else [])"
    and "r \<noteq> None \<Longrightarrow> h = zeroHeartBeatDetails"
    and "\<not> startOver \<Longrightarrow> take 1 (scanTokens tr) = [PageToken hb]"
    and "\<not> startOver \<Longrightarrow> r = None \<Longrightarrow> TotalEstimate h = TotalEstimate hb"
    and "\<not> startOver \<Longrightarrow> x \<in> set (snapshots tr) \<Longrightarrow> TotalEstimate x = TotalEstimate hb"
    and "startOver \<Longrightarrow> CountWorkflow env tr0 (Query p) = Inr n \<Longrightarrow> r = None \<Longrightarrow>
           TotalEstimate h = n"
    and "startOver \<Longrightarrow> CountWorkflow env tr0 (Query p) = Inr n \<Longrightarrow> x \<in> set (snapshots tr) \<Longrightarrow>
           TotalEstimate x = n"
    and "startOver \<Longrightarrow> CountWorkflow env tr0 (Query p) = Inl e \<Longrightarrow>
           h = zeroHeartBeatDetails \<and> r = Some e \<and> tr = tr0 @ [CountWorkflowCall (Query p)]"
proof -
  note l0 = restoreHeartbeat_log [OF assms(1)]
  show "countCalls tr = (if startOver then [CountWorkflowCall (Query p)] else [])"
  proof (cases startOver)
    case False
    with assms have "pageLoop env p hb (tr0 @ replicate (nat (sint (Concurrency p))) GoTaskProcessorCall)
        = Some ((h, r), tr)"
      by (simp add: BatchActivity_def)
    from pageLoop_post [OF this] False l0 show ?thesis
      by (simp add: log_simps replicate_log)
  next
    case True
    show ?thesis
    proof (cases "CountWorkflow env tr0 (Query p)")
      case (Inl e)
      with True assms l0 show ?thesis
        by (auto simp: BatchActivity_def log_simps)
    next
      case (Inr n)
      with True assms have "pageLoop env p (hb\<lparr>TotalEstimate := n\<rparr>)
          (tr0 @ [CountWorkflowCall (Query p)]
              @ replicate (nat (sint (Concurrency p))) GoTaskProcessorCall) = Some ((h, r), tr)"
        by (simp add: BatchActivity_def)
      from pageLoop_post [OF this] True l0 show ?thesis
        by (simp add: log_simps replicate_log)
    qed
  qed
  show "r \<noteq> None \<Longrightarrow> h = zeroHeartBeatDetails"
  proof (cases startOver)
    case False
    with assms have "pageLoop env p hb (tr0 @ replicate (nat (sint (Concurrency p))) GoTaskProcessorCall)
        = Some ((h, r), tr)"
      by (simp add: BatchActivity_def)
    from pageLoop_post [OF this] show "r \<noteq> None \<Longrightarrow> h = zeroHeartBeatDetails" by simp
  next
    case True
    assume r: "r \<noteq> None"
    show "h = zeroHeartBeatDetails"
    proof (cases "CountWorkflow env tr0 (Query p)")
      case (Inl e)
      with True assms show ?thesis
        by (auto simp: BatchActivity_def)
    next
      case (Inr n)
      with True assms have "pageLoop env p (hb\<lparr>TotalEstimate := n\<rparr>)
          (tr0 @ [CountWorkflowCall (Query p)]
              @ replicate (nat (sint (Concurrency p))) GoTaskProcessorCall) = Some ((h, r), tr)"
        by (simp add: BatchActivity_def)
      from pageLoop_post [OF this] r show ?thesis by simp
    qed
  qed
  {
    assume no: "\<not> startOver"
    with assms have "pageLoop env p hb (tr0 @ replicate (nat (sint (Concurrency p))) GoTaskProcessorCall)
        = Some ((h, r), tr)"
      by (simp add: BatchActivity_def)
    note post = pageLoop_post [OF this]
    from post l0 show "take 1 (scanTokens tr) = [PageToken hb]"
      by (auto simp: log_simps replicate_log)
    from post show "r = None \<Longrightarrow> TotalEstimate h = TotalEstimate hb" by simp
    from post l0 show "x \<in> set (snapshots tr) \<Longrightarrow> TotalEstimate x = TotalEstimate hb"
      by (auto simp: log_simps replicate_log)
  }
  {
    assume so: "startOver" and c: "CountWorkflow env tr0 (Query p) = Inr n"
    with assms have "pageLoop env p (hb\<lparr>TotalEstimate := n\<rparr>)
          (tr0 @ [CountWorkflowCall (Query p)]
              @ replicate (nat (sint (Concurrency p))) GoTaskProcessorCall) = Some ((h, r), tr)"
      by (simp add: BatchActivity_def)
    note post = pageLoop_post [OF this]
    from post show "r = None \<Longrightarrow> TotalEstimate h = n" by simp
    from post l0 show "x \<in> set (snapshots tr) \<Longrightarrow> TotalEstimate x = n"
      by (auto simp: log_simps replicate_log)
  }
  {
    assume so: "startOver" and c: "CountWorkflow env tr0 (Query p) = Inl e"
    with assms show "h = zeroHeartBeatDetails \<and> r = Some e \<and> tr = tr0 @ [CountWorkflowCall (Query p)]"
      by (auto simp: BatchActivity_def)
  }
qed

text \<open>
  C10. Whenever \<^verbatim>\<open>BatchActivity\<close> returns an error, from the count, from a
  scan or from the end of the context, the heartbeat details it returns are the zero
  value.
\<close>

theorem error_return_is_zero:
  "BatchActivity env p = Some ((h, Some e), tr) \<Longrightarrow> h = zeroHeartBeatDetails"
proof -
  assume a: "BatchActivity env p = Some ((h, Some e), tr)"
  obtain hb startOver tr0 where "restoreHeartbeat env = (hb, startOver, tr0)"
    by (cases "restoreHeartbeat env") auto
  from BatchActivity_post(2) [OF this a] show ?thesis by simp
qed

text \<open>
  The entry of the activity. With heartbeat details present and restored, the activity goes straight into the
  loop with the restored details: a returned run has logged no count call, and its first
  scan carries the restored page token. With no details the activity calls count once,
  and when the count answers \<open>n\<close> it goes into the loop with the zero details and
  \<open>TotalEstimate = n\<close>. A restore that fails with \<open>e\<close> does not end the activity:
  it leaves a counter increment and an error line in the log, the activity calls count
  once, and when the count answers \<open>n\<close> it goes into the loop with
  \<open>TotalEstimate = n\<close> in the details \<open>left\<close> in the destination, which are the zero
  details when the failed decoder wrote nothing.
\<close>

lemma activity_entry:
  "(HasHeartbeatDetails env \<and> GetHeartbeatDetails env = Inr h0 \<longrightarrow>
      BatchActivity env p =
        pageLoop env p h0
          ([HasHeartbeatDetailsCall, GetHeartbeatDetailsCall]
             @ replicate (nat (sint (Concurrency p))) GoTaskProcessorCall) \<and>
      (\<forall>r tr. BatchActivity env p = Some (r, tr) \<longrightarrow>
         countCalls tr = [] \<and> take 1 (scanTokens tr) = [PageToken h0])) \<and>
   (\<not> HasHeartbeatDetails env \<longrightarrow>
      (\<forall>n. CountWorkflow env [HasHeartbeatDetailsCall] (Query p) = Inr n \<longrightarrow>
         BatchActivity env p =
           pageLoop env p (zeroHeartBeatDetails\<lparr>TotalEstimate := n\<rparr>)
             ([HasHeartbeatDetailsCall] @ [CountWorkflowCall (Query p)]
                @ replicate (nat (sint (Concurrency p))) GoTaskProcessorCall)) \<and>
      (\<forall>r tr. BatchActivity env p = Some (r, tr) \<longrightarrow>
         countCalls tr = [CountWorkflowCall (Query p)])) \<and>
   (HasHeartbeatDetails env \<and> GetHeartbeatDetails env = Inl (e, left) \<longrightarrow>
      (\<forall>n. CountWorkflow env
              [HasHeartbeatDetailsCall, GetHeartbeatDetailsCall,
               IncCounterCall BatcherProcessorFailures,
               LogErrorCall ''Failed to recover from last heartbeat, start over from beginning''
                 e] (Query p) = Inr n \<longrightarrow>
         BatchActivity env p =
           pageLoop env p (left\<lparr>TotalEstimate := n\<rparr>)
             ([HasHeartbeatDetailsCall, GetHeartbeatDetailsCall,
               IncCounterCall BatcherProcessorFailures,
               LogErrorCall ''Failed to recover from last heartbeat, start over from beginning''
                 e] @ [CountWorkflowCall (Query p)]
                @ replicate (nat (sint (Concurrency p))) GoTaskProcessorCall)) \<and>
      (\<forall>r tr. BatchActivity env p = Some (r, tr) \<longrightarrow>
         countCalls tr = [CountWorkflowCall (Query p)]))"
proof (intro conjI impI allI)
  assume a: "HasHeartbeatDetails env \<and> GetHeartbeatDetails env = Inr h0"
  then show "BatchActivity env p =
        pageLoop env p h0
          ([HasHeartbeatDetailsCall, GetHeartbeatDetailsCall]
             @ replicate (nat (sint (Concurrency p))) GoTaskProcessorCall)"
    by (simp add: BatchActivity_restored)
  from a have rh: "restoreHeartbeat env =
      (h0, False, [HasHeartbeatDetailsCall, GetHeartbeatDetailsCall])"
    by (simp add: restoreHeartbeat_def)
  fix r tr assume b: "BatchActivity env p = Some (r, tr)"
  obtain h x where r: "r = (h, x)" by (cases r)
  from BatchActivity_post(1) [OF rh b [unfolded r]]
  show "countCalls tr = []" by simp
  from BatchActivity_post(3) [OF rh b [unfolded r]]
  show "take 1 (scanTokens tr) = [PageToken h0]" by simp
next
  assume a: "\<not> HasHeartbeatDetails env"
  then have rh: "restoreHeartbeat env = (zeroHeartBeatDetails, True, [HasHeartbeatDetailsCall])"
    by (simp add: restoreHeartbeat_def)
  {
    fix n assume "CountWorkflow env [HasHeartbeatDetailsCall] (Query p) = Inr n"
    with rh show "BatchActivity env p =
           pageLoop env p (zeroHeartBeatDetails\<lparr>TotalEstimate := n\<rparr>)
             ([HasHeartbeatDetailsCall] @ [CountWorkflowCall (Query p)]
                @ replicate (nat (sint (Concurrency p))) GoTaskProcessorCall)"
      by (simp add: BatchActivity_def)
  }
  fix r tr assume b: "BatchActivity env p = Some (r, tr)"
  obtain h x where r: "r = (h, x)" by (cases r)
  from BatchActivity_post(1) [OF rh b [unfolded r]]
  show "countCalls tr = [CountWorkflowCall (Query p)]" by simp
next
  let ?tr0 = "[HasHeartbeatDetailsCall, GetHeartbeatDetailsCall,
               IncCounterCall BatcherProcessorFailures,
               LogErrorCall ''Failed to recover from last heartbeat, start over from beginning''
                 e]"
  assume a: "HasHeartbeatDetails env \<and> GetHeartbeatDetails env = Inl (e, left)"
  then have rh: "restoreHeartbeat env = (left, True, ?tr0)"
    by (simp add: restoreHeartbeat_def)
  {
    fix n assume "CountWorkflow env ?tr0 (Query p) = Inr n"
    with rh show "BatchActivity env p =
           pageLoop env p (left\<lparr>TotalEstimate := n\<rparr>)
             (?tr0 @ [CountWorkflowCall (Query p)]
                @ replicate (nat (sint (Concurrency p))) GoTaskProcessorCall)"
      by (simp add: BatchActivity_def)
  }
  fix r tr assume b: "BatchActivity env p = Some (r, tr)"
  obtain h x where r: "r = (h, x)" by (cases r)
  from BatchActivity_post(1) [OF rh b [unfolded r]]
  show "countCalls tr = [CountWorkflowCall (Query p)]" by simp
qed

lemma procFn_snapshots:
  "snapshots (snd (terminateFn env p w r tr)) = snapshots tr"
  "snapshots (snd (cancelFn env p w r tr)) = snapshots tr"
  "snapshots (snd (signalFn env p w r tr)) = snapshots tr"
  by (simp_all add: terminateFn_def cancelFn_def signalFn_def log_simps)

lemma walkBody_snapshots:
  assumes "\<forall>w r tr. snapshots (snd (f w r tr)) = snapshots tr"
    and "walkBody env task a f wfe rest tr = (res, tr')"
  shows "\<forall>x\<in>set (snapshots tr'). x \<in> set (snapshots tr) \<or> x = hbd task"
proof -
  obtain perr tr2 where f: "f (WorkflowId wfe) (RunId wfe) (tr @ [LimiterWaitCall]) = (perr, tr2)"
    by (cases "f (WorkflowId wfe) (RunId wfe) (tr @ [LimiterWaitCall])")
  from assms(1) have "snapshots (snd (f (WorkflowId wfe) (RunId wfe) (tr @ [LimiterWaitCall])))
      = snapshots (tr @ [LimiterWaitCall])"
    by blast
  with f have tr2: "snapshots tr2 = snapshots tr"
    by (simp add: log_simps)
  from assms(2) f tr2 show ?thesis
    by (auto simp: walkBody_def log_simps split: option.splits sum.splits if_splits)
qed

lemma processLoop_snapshots:
  assumes "processLoop env task a f wfs tr = Some y"
  shows "(\<forall>w r tr. snapshots (snd (f w r tr)) = snapshots tr) \<longrightarrow>
         (\<forall>x\<in>set (snapshots (snd y)). x \<in> set (snapshots tr) \<or> x = hbd task)"
proof (rule processLoop.raw_induct
    [where P = "\<lambda>env task a f wfs tr y.
       (\<forall>w r tr. snapshots (snd (f w r tr)) = snapshots tr) \<longrightarrow>
       (\<forall>x\<in>set (snapshots (snd y)). x \<in> set (snapshots tr) \<or> x = hbd task)", OF _ assms],
    goal_cases)
  case (1 g env task a f wfs tr y)
  show ?case
  proof
    assume pf: "\<forall>w r tr. snapshots (snd (f w r tr)) = snapshots tr"
    show "\<forall>x\<in>set (snapshots (snd y)). x \<in> set (snapshots tr) \<or> x = hbd task"
    proof (cases wfs)
      case Nil
      with 1(2) show ?thesis by auto
    next
      case (Cons wfe rest)
      obtain res tr1 where wb: "walkBody env task a f wfe rest tr = (res, tr1)"
        by (cases "walkBody env task a f wfe rest tr")
      note ws = walkBody_snapshots [OF pf wb]
      show ?thesis
      proof (cases res)
        case (WalkReturn e)
        with Cons wb 1(2) have "y = (e, tr1)" by simp
        with ws show ?thesis by simp
      next
        case (WalkContinue wfs')
        with Cons wb 1(2) have "g env task a f wfs' tr1 = Some y" by simp
        from 1(1) [OF this] pf ws show ?thesis by blast
      qed
    qed
  qed
qed

lemma dispatchTask_snapshots:
  assumes "dispatchTask bt env p task tr = Some (r, tr')"
  shows "\<forall>x\<in>set (snapshots tr'). x \<in> set (snapshots tr) \<or> x = hbd task"
proof -
  consider (t) "BatchType p = BatchTypeTerminate bt"
    | (c) "BatchType p \<noteq> BatchTypeTerminate bt" "BatchType p = BatchTypeCancel bt"
    | (s) "BatchType p \<noteq> BatchTypeTerminate bt" "BatchType p \<noteq> BatchTypeCancel bt"
        "BatchType p = BatchTypeSignal bt"
    | (n) "BatchType p \<noteq> BatchTypeTerminate bt" "BatchType p \<noteq> BatchTypeCancel bt"
        "BatchType p \<noteq> BatchTypeSignal bt"
    by blast
  then show ?thesis
  proof cases
    case t
    with assms have "processLoop env task (TerminateChildren (TerminateParams p))
        (terminateFn env p) [execution task] tr = Some (r, tr')"
      by (simp add: dispatchTask_def processTask_def)
    from processLoop_snapshots [OF this] procFn_snapshots(1) show ?thesis by simp
  next
    case c
    with assms have "processLoop env task (CancelChildren (CancelParams p))
        (cancelFn env p) [execution task] tr = Some (r, tr')"
      by (simp add: dispatchTask_def processTask_def)
    from processLoop_snapshots [OF this] procFn_snapshots(2) show ?thesis by simp
  next
    case s
    with assms have "processLoop env task (Some False)
        (signalFn env p) [execution task] tr = Some (r, tr')"
      by (simp add: dispatchTask_def processTask_def)
    from processLoop_snapshots [OF this] procFn_snapshots(3) show ?thesis by simp
  next
    case n
    with assms show ?thesis by (simp add: dispatchTask_def)
  qed
qed

text \<open>
  C9. The total estimate is the restored one on re-entry and the answer of the count on
  a fresh start, in the details returned without error and in every heartbeat and every
  task of a returned run. A pass of the main loop changes the details in the page token,
  the page counter and the two outcome counters only. A task put back for a retry keeps
  its snapshot, and every heartbeat of the child walk carries the snapshot of its task.
\<close>

theorem total_estimate_frame:
  "(\<forall>hb tr0 h r tr.
      restoreHeartbeat env = (hb, False, tr0) \<longrightarrow>
      BatchActivity env p = Some ((h, r), tr) \<longrightarrow>
        (r = None \<longrightarrow> TotalEstimate h = TotalEstimate hb) \<and>
        (\<forall>x\<in>set (snapshots tr). TotalEstimate x = TotalEstimate hb)) \<and>
   (\<forall>hb tr0 n h r tr.
      restoreHeartbeat env = (hb, True, tr0) \<longrightarrow>
      CountWorkflow env tr0 (Query p) = Inr n \<longrightarrow>
      BatchActivity env p = Some ((h, r), tr) \<longrightarrow>
        (r = None \<longrightarrow> TotalEstimate h = n) \<and>
        (\<forall>x\<in>set (snapshots tr). TotalEstimate x = n)) \<and>
   (\<forall>hb tr1 h' tr2.
      pageBody env p hb tr1 = Some (PageContinue h', tr2) \<or>
      pageBody env p hb tr1 = Some (PageBreak h', tr2) \<longrightarrow>
        h'\<lparr>PageToken := PageToken hb, CurrentPage := CurrentPage hb,
           SuccessCount := SuccessCount hb, ErrorCount := ErrorCount hb\<rparr> = hb) \<and>
   (\<forall>task tr1 task' tr2.
      taskProcessorBody bt env p task tr1 = Some (TaskChSend task', tr2) \<longrightarrow>
        hbd task' = hbd task) \<and>
   (\<forall>task tr1 r tr2.
      dispatchTask bt env p task tr1 = Some (r, tr2) \<longrightarrow>
        (\<forall>x\<in>set (snapshots tr2). x \<in> set (snapshots tr1) \<or> x = hbd task))"
proof (intro conjI allI impI ballI)
  fix hb tr0 h r tr
  assume rh: "restoreHeartbeat env = (hb, False, tr0)"
    and run: "BatchActivity env p = Some ((h, r), tr)"
  from BatchActivity_post(4) [OF rh run] show "r = None \<Longrightarrow> TotalEstimate h = TotalEstimate hb"
    by simp
  fix x assume "x \<in> set (snapshots tr)"
  with BatchActivity_post(5) [OF rh run] show "TotalEstimate x = TotalEstimate hb"
    by simp
next
  fix hb tr0 n h r tr
  assume rh: "restoreHeartbeat env = (hb, True, tr0)"
    and c: "CountWorkflow env tr0 (Query p) = Inr n"
    and run: "BatchActivity env p = Some ((h, r), tr)"
  from BatchActivity_post(6) [OF rh run _ c] show "r = None \<Longrightarrow> TotalEstimate h = n"
    by simp
  fix x assume "x \<in> set (snapshots tr)"
  with BatchActivity_post(7) [OF rh run _ c] show "TotalEstimate x = n"
    by simp
next
  fix hb tr1 h' tr2
  assume "pageBody env p hb tr1 = Some (PageContinue h', tr2) \<or>
          pageBody env p hb tr1 = Some (PageBreak h', tr2)"
  then obtain res where b: "pageBody env p hb tr1 = Some (res, tr2)"
    and res: "res = PageContinue h' \<or> res = PageBreak h'"
    by blast
  from b res show "h'\<lparr>PageToken := PageToken hb, CurrentPage := CurrentPage hb,
           SuccessCount := SuccessCount hb, ErrorCount := ErrorCount hb\<rparr> = hb"
    by (cases rule: pageBody_cases) (auto split: if_splits)
next
  fix task tr1 task' tr2
  assume "taskProcessorBody bt env p task tr1 = Some (TaskChSend task', tr2)"
  then show "hbd task' = hbd task"
    by (auto simp: taskProcessorBody_def Let_def split: if_splits option.splits prod.splits)
next
  fix task tr1 r tr2 x
  assume "dispatchTask bt env p task tr1 = Some (r, tr2)" and "x \<in> set (snapshots tr2)"
  with dispatchTask_snapshots show "x \<in> set (snapshots tr1) \<or> x = hbd task"
    by blast
qed


text \<open>
  The wait loop when the \<^verbatim>\<open>select\<close> receives the outcomes \<open>rs\<close> one after the
  other: it returns after the last of them, with the successes and the errors among them
  added to its counters.
\<close>

lemma waitBatch_delivered:
  fixes s e :: int64
  assumes "rs \<noteq> []" and "length rs < 2 ^ 64"
    and "\<forall>k<length rs.
           selectResp env (tr @ map (\<lambda>r. SelectCall (RespEv r)) (take k rs)) =
             Some (RespEv (rs ! k))"
  shows "waitBatch env (s + e + of_nat (length rs)) s e tr =
     Some (Inr (s + of_nat (length (filter (\<lambda>r. r = None) rs)),
                e + of_nat (length (filter (\<lambda>r. r \<noteq> None) rs))),
           tr @ map (\<lambda>r. SelectCall (RespEv r)) rs)"
  using assms
proof (induction rs arbitrary: s e tr)
  case Nil
  then show ?case by simp
next
  case (Cons r rs)
  let ?s = "if r = None then s + 1 else s" and ?e = "if r = None then e else e + 1"
  from Cons.prems(3) have sel: "selectResp env tr = Some (RespEv r)"
    by force
  have sum: "?s + ?e = s + e + 1"
    by simp
  show ?case
  proof (cases "rs = []")
    case True
    with sel sum show ?thesis
      by (subst waitBatch_Resp [OF sel]) simp
  next
    case False
    with Cons.prems(2) have "(of_nat (length rs) :: int64) \<noteq> 0"
      by (intro of_nat_neq_0) simp_all
    then have ne: "?s + ?e \<noteq> s + e + of_nat (length (r # rs))"
      by simp
    have rest: "\<forall>k<length rs.
        selectResp env ((tr @ [SelectCall (RespEv r)]) @
            map (\<lambda>r. SelectCall (RespEv r)) (take k rs)) = Some (RespEv (rs ! k))"
    proof (intro allI impI)
      fix k assume "k < length rs"
      with Cons.prems(3) [rule_format, of "Suc k"]
      show "selectResp env ((tr @ [SelectCall (RespEv r)]) @
            map (\<lambda>r. SelectCall (RespEv r)) (take k rs)) = Some (RespEv (rs ! k))"
        by simp
    qed
    from Cons.prems(2) have len: "length rs < 2 ^ 64"
      by simp
    have n: "s + e + of_nat (length (r # rs)) = ?s + ?e + of_nat (length rs)"
      by simp
    have "waitBatch env (s + e + of_nat (length (r # rs))) s e tr =
          waitBatch env (?s + ?e + of_nat (length rs)) ?s ?e (tr @ [SelectCall (RespEv r)])"
      using ne by (subst waitBatch_Resp [OF sel]) (simp only: n if_False)
    also have "\<dots> = Some (Inr (?s + of_nat (length (filter (\<lambda>r. r = None) rs)),
                ?e + of_nat (length (filter (\<lambda>r. r \<noteq> None) rs))),
           (tr @ [SelectCall (RespEv r)]) @ map (\<lambda>r. SelectCall (RespEv r)) rs)"
      by (rule Cons.IH [OF False len rest])
    finally show ?thesis
      by (cases "r = None") simp_all
  qed
qed

text \<open>A length below \<open>2 ^ 63\<close> is itself as a signed 64-bit word.\<close>

lemma sint_of_nat_length:
  assumes "n < 2 ^ 63"
  shows "sint (of_nat n :: int64) = int n"
proof -
  from assms have "int n < 2 ^ 63"
    by (metis of_nat_less_iff of_nat_numeral of_nat_power)
  then have "signed_take_bit 63 (int n) = int n"
    by (intro signed_take_bit_int_eq_self) simp_all
  then show ?thesis
    by (simp add: signed_of_nat)
qed

text \<open>
  C5. One pass of the main loop whose scan answers \<open>resp\<close>, a page of fewer than
  \<open>2 ^ 63\<close> executions as every Go slice is. On an empty page the activity returns the
  current details and no error. Otherwise let the response channel deliver the outcomes
  \<open>rs\<close>, one for each execution of the page. The wait then returns after exactly these
  outcomes, with the successes and the errors among them as its counters; the details
  get the page counter plus one, the next page token and the two counters added, each
  sum wrapping as Go's \<^verbatim>\<open>int\<close> does, and are recorded in a heartbeat; the activity then
  returns them with no error when the next page token is empty, and otherwise goes
  through the loop again with them.
\<close>

theorem page_iteration:
  assumes scan: "ScanWorkflow env tr pageSize (PageToken hb) (Query p) = Inr resp"
    and len: "length (Executions resp) < 2 ^ 63"
    and rs: "length rs = length (Executions resp)"
    and deliv: "\<forall>k<length rs.
        selectResp env
          ((tr @ [ScanWorkflowCall pageSize (PageToken hb) (Query p)]
               @ map (\<lambda>wfe. SendTaskCall \<lparr>execution = Execution wfe, attempts = 0, hbd = hb\<rparr>)
                   (Executions resp))
             @ map (\<lambda>r. SelectCall (RespEv r)) (take k rs)) = Some (RespEv (rs ! k))"
  shows
    "(Executions resp = [] \<longrightarrow>
        pageLoop env p hb tr =
          Some ((hb, None), tr @ [ScanWorkflowCall pageSize (PageToken hb) (Query p)])) \<and>
     (Executions resp \<noteq> [] \<longrightarrow>
        waitBatch env (of_nat (length (Executions resp))) 0 0
          (tr @ [ScanWorkflowCall pageSize (PageToken hb) (Query p)]
              @ map (\<lambda>wfe. SendTaskCall \<lparr>execution = Execution wfe, attempts = 0, hbd = hb\<rparr>)
                  (Executions resp)) =
          Some (Inr (of_nat (length (filter (\<lambda>r. r = None) rs)),
                     of_nat (length (filter (\<lambda>r. r \<noteq> None) rs))),
                (tr @ [ScanWorkflowCall pageSize (PageToken hb) (Query p)]
                    @ map (\<lambda>wfe. SendTaskCall
                             \<lparr>execution = Execution wfe, attempts = 0, hbd = hb\<rparr>)
                        (Executions resp))
                  @ map (\<lambda>r. SelectCall (RespEv r)) rs) \<and>
        (NextPageToken resp = [] \<longrightarrow>
           pageLoop env p hb tr =
             Some ((hb\<lparr>CurrentPage := CurrentPage hb + 1,
                        PageToken := NextPageToken resp,
                        SuccessCount :=
                          SuccessCount hb + of_nat (length (filter (\<lambda>r. r = None) rs)),
                        ErrorCount :=
                          ErrorCount hb + of_nat (length (filter (\<lambda>r. r \<noteq> None) rs))\<rparr>,
                    None),
                   (tr @ [ScanWorkflowCall pageSize (PageToken hb) (Query p)]
                       @ map (\<lambda>wfe. SendTaskCall
                                \<lparr>execution = Execution wfe, attempts = 0, hbd = hb\<rparr>)
                           (Executions resp))
                     @ map (\<lambda>r. SelectCall (RespEv r)) rs
                     @ [RecordHeartbeatCall
                          (hb\<lparr>CurrentPage := CurrentPage hb + 1,
                               PageToken := NextPageToken resp,
                               SuccessCount :=
                                 SuccessCount hb + of_nat (length (filter (\<lambda>r. r = None) rs)),
                               ErrorCount :=
                                 ErrorCount hb
                                   + of_nat (length (filter (\<lambda>r. r \<noteq> None) rs))\<rparr>)])) \<and>
        (NextPageToken resp \<noteq> [] \<longrightarrow>
           pageLoop env p hb tr =
             pageLoop env p
               (hb\<lparr>CurrentPage := CurrentPage hb + 1,
                    PageToken := NextPageToken resp,
                    SuccessCount :=
                      SuccessCount hb + of_nat (length (filter (\<lambda>r. r = None) rs)),
                    ErrorCount :=
                      ErrorCount hb + of_nat (length (filter (\<lambda>r. r \<noteq> None) rs))\<rparr>)
               ((tr @ [ScanWorkflowCall pageSize (PageToken hb) (Query p)]
                    @ map (\<lambda>wfe. SendTaskCall
                             \<lparr>execution = Execution wfe, attempts = 0, hbd = hb\<rparr>)
                        (Executions resp))
                  @ map (\<lambda>r. SelectCall (RespEv r)) rs
                  @ [RecordHeartbeatCall
                       (hb\<lparr>CurrentPage := CurrentPage hb + 1,
                            PageToken := NextPageToken resp,
                            SuccessCount :=
                              SuccessCount hb + of_nat (length (filter (\<lambda>r. r = None) rs)),
                            ErrorCount :=
                              ErrorCount hb
                                + of_nat (length (filter (\<lambda>r. r \<noteq> None) rs))\<rparr>)])))"
proof (intro conjI impI)
  assume "Executions resp = []"
  with scan show "pageLoop env p hb tr =
          Some ((hb, None), tr @ [ScanWorkflowCall pageSize (PageToken hb) (Query p)])"
    by (subst pageLoop_unfold) (simp add: pageBody_def word_sle_eq)
next
  let ?tr2 = "tr @ [ScanWorkflowCall pageSize (PageToken hb) (Query p)]
              @ map (\<lambda>wfe. SendTaskCall \<lparr>execution = Execution wfe, attempts = 0, hbd = hb\<rparr>)
                  (Executions resp)"
  let ?succ = "of_nat (length (filter (\<lambda>r. r = None) rs)) :: int64"
  let ?err = "of_nat (length (filter (\<lambda>r. r \<noteq> None) rs)) :: int64"
  let ?hb = "hb\<lparr>CurrentPage := CurrentPage hb + 1, PageToken := NextPageToken resp,
                SuccessCount := SuccessCount hb + ?succ, ErrorCount := ErrorCount hb + ?err\<rparr>"
  assume ne: "Executions resp \<noteq> []"
  with rs have rs_ne: "rs \<noteq> []"
    by auto
  from len rs have rs_len: "length rs < 2 ^ 64"
    by simp
  from ne have "0 < int (length (Executions resp))"
    by simp
  with sint_of_nat_length [OF len]
  have pos: "\<not> (of_nat (length (Executions resp)) :: int64) \<le>s 0"
    by (simp add: word_sle_eq)
  from waitBatch_delivered [OF rs_ne rs_len deliv, of 0 0] rs
  show w: "waitBatch env (of_nat (length (Executions resp))) 0 0 ?tr2 =
      Some (Inr (?succ, ?err), ?tr2 @ map (\<lambda>r. SelectCall (RespEv r)) rs)"
    by simp
  {
    assume "NextPageToken resp = []"
    with scan pos w show "pageLoop env p hb tr =
        Some ((?hb, None),
              ?tr2 @ map (\<lambda>r. SelectCall (RespEv r)) rs @ [RecordHeartbeatCall ?hb])"
      by (subst pageLoop_unfold) (simp add: pageBody_def Let_def)
  }
  {
    assume "NextPageToken resp \<noteq> []"
    with scan pos w show "pageLoop env p hb tr =
        pageLoop env p ?hb
          (?tr2 @ map (\<lambda>r. SelectCall (RespEv r)) rs @ [RecordHeartbeatCall ?hb])"
      by (subst pageLoop_unfold) (simp add: pageBody_def Let_def)
  }
qed

lemmas example_defs = exampleEnv_def exampleRequest_def workingRequest_def exampleRoot_def
  resumedDetails_def finalDetails_def secondPageLog_def firstPageLog_def
  zeroHeartBeatDetails_def pageSize_def Let_def word_sle_eq

theorem page_iteration_witness:
  "pageLoop mixedEnv workingRequest (zeroHeartBeatDetails\<lparr>TotalEstimate := 2\<rparr>) [] =
     Some ((\<lparr>PageToken = [], CurrentPage = 1, TotalEstimate = 2, SuccessCount = 1,
              ErrorCount = 1\<rparr>, None),
           [ScanWorkflowCall 1000 [] ''q'',
            SendTaskCall \<lparr>execution = exampleRoot, attempts = 0,
                          hbd = zeroHeartBeatDetails\<lparr>TotalEstimate := 2\<rparr>\<rparr>,
            SendTaskCall \<lparr>execution = \<lparr>WorkflowId = ''second'', RunId = ''r1''\<rparr>,
                          attempts = 0, hbd = zeroHeartBeatDetails\<lparr>TotalEstimate := 2\<rparr>\<rparr>,
            SelectCall (RespEv None),
            SelectCall (RespEv (Some (OtherError ''transient''))),
            RecordHeartbeatCall
              \<lparr>PageToken = [], CurrentPage = 1, TotalEstimate = 2, SuccessCount = 1,
                 ErrorCount = 1\<rparr>])"
proof -
  let ?resp = "\<lparr>Executions = [\<lparr>Execution = exampleRoot\<rparr>,
                              \<lparr>Execution = \<lparr>WorkflowId = ''second'', RunId = ''r1''\<rparr>\<rparr>],
                NextPageToken = []\<rparr>"
  let ?hb = "zeroHeartBeatDetails\<lparr>TotalEstimate := 2\<rparr>"
  let ?rs = "[None, Some (OtherError ''transient'')]"
  have scan: "ScanWorkflow mixedEnv [] pageSize (PageToken ?hb) (Query workingRequest) = Inr ?resp"
    by (simp add: mixedEnv_def exampleEnv_def)
  have len: "length (Executions ?resp) < 2 ^ 63"
    by simp
  have rs: "length ?rs = length (Executions ?resp)"
    by simp
  have deliv: "\<forall>k<length ?rs.
        selectResp mixedEnv
          (([] @ [ScanWorkflowCall pageSize (PageToken ?hb) (Query workingRequest)]
               @ map (\<lambda>wfe. SendTaskCall \<lparr>execution = Execution wfe, attempts = 0, hbd = ?hb\<rparr>)
                   (Executions ?resp))
             @ map (\<lambda>r. SelectCall (RespEv r)) (take k ?rs)) = Some (RespEv (?rs ! k))"
    by (simp add: All_less_Suc mixedEnv_def exampleEnv_def)
  from page_iteration [OF scan len rs deliv]
  show ?thesis
    by (simp add: example_defs)
qed

text \<open>The same pass from a page counter at the largest \<^verbatim>\<open>int\<close>: the counter wraps.\<close>

lemma page_counter_wraps:
  "\<exists>h tr. pageLoop mixedEnv workingRequest
             (zeroHeartBeatDetails\<lparr>CurrentPage := 9223372036854775807\<rparr>) [] =
             Some ((h, None), tr) \<and>
          sint (CurrentPage h) = - 9223372036854775808"
  by (simp add: pageLoop_unfold pageBody_def waitBatch_Resp mixedEnv_def example_defs)

text \<open>
  C4. Heartbeat details are present and their decoding fails after it has written the
  page token \<open>T1\<close>, page 7 and 4 errors into \<^verbatim>\<open>hbd\<close>. The activity logs the failure
  and calls count, and then does not start from the beginning: its first scan carries
  the token \<open>T1\<close>, and it returns page 8 with the 4 errors, where a fresh start scans
  from the empty token and returns page 2 with no error.
\<close>

theorem failed_restore_keeps_leftover_details:
  "HasHeartbeatDetails partialRestoreEnv \<and>
   GetHeartbeatDetails partialRestoreEnv = Inl (OtherError ''bad details'', leftoverDetails) \<and>
   BatchActivity partialRestoreEnv workingRequest =
     Some ((\<lparr>PageToken = [], CurrentPage = 8, TotalEstimate = 2, SuccessCount = 1,
              ErrorCount = 4\<rparr>, None),
           [HasHeartbeatDetailsCall, GetHeartbeatDetailsCall,
            IncCounterCall BatcherProcessorFailures,
            LogErrorCall ''Failed to recover from last heartbeat, start over from beginning''
              (OtherError ''bad details''),
            CountWorkflowCall ''q'', GoTaskProcessorCall,
            ScanWorkflowCall 1000 ''T1'' ''q'',
            SendTaskCall \<lparr>execution = \<lparr>WorkflowId = ''second'', RunId = ''r1''\<rparr>,
                          attempts = 0, hbd = leftoverDetails\<lparr>TotalEstimate := 2\<rparr>\<rparr>,
            SelectCall (RespEv None),
            RecordHeartbeatCall
              \<lparr>PageToken = [], CurrentPage = 8, TotalEstimate = 2, SuccessCount = 1,
                 ErrorCount = 4\<rparr>]) \<and>
   BatchActivity exampleEnv workingRequest =
     Some ((finalDetails, None),
           [HasHeartbeatDetailsCall, CountWorkflowCall ''q'', GoTaskProcessorCall]
             @ firstPageLog @ secondPageLog)"
  by (simp add: BatchActivity_def restoreHeartbeat_def pageLoop_unfold pageBody_def
      waitBatch_Resp partialRestoreEnv_def leftoverDetails_def example_defs)

text \<open>The part of the entry that holds: a run that resumes from restored details.\<close>

lemma resumed_run:
  "BatchActivity resumeEnv workingRequest =
     Some ((finalDetails, None),
           [HasHeartbeatDetailsCall, GetHeartbeatDetailsCall, GoTaskProcessorCall]
             @ secondPageLog)"
  by (simp add: BatchActivity_def restoreHeartbeat_def pageLoop_unfold pageBody_def
      waitBatch_Resp resumeEnv_def example_defs)

lemma example_run:
  "BatchActivity exampleEnv workingRequest =
     Some ((finalDetails, None),
           [HasHeartbeatDetailsCall, CountWorkflowCall ''q'', GoTaskProcessorCall]
             @ firstPageLog @ secondPageLog)"
  by (simp add: BatchActivity_def restoreHeartbeat_def pageLoop_unfold pageBody_def
      waitBatch_Resp example_defs)

theorem total_estimate_frame_witness:
  "BatchActivity exampleEnv workingRequest =
     Some ((finalDetails, None),
           [HasHeartbeatDetailsCall, CountWorkflowCall ''q'', GoTaskProcessorCall]
             @ firstPageLog @ secondPageLog) \<and>
   TotalEstimate finalDetails = 2 \<and>
   list_all (\<lambda>x. TotalEstimate x = 2)
     (snapshots ([HasHeartbeatDetailsCall, CountWorkflowCall ''q'', GoTaskProcessorCall]
                   @ firstPageLog @ secondPageLog))"
proof -
  have rh: "restoreHeartbeat exampleEnv = (zeroHeartBeatDetails, True, [HasHeartbeatDetailsCall])"
    by (simp add: restoreHeartbeat_def exampleEnv_def)
  have c: "CountWorkflow exampleEnv [HasHeartbeatDetailsCall] (Query workingRequest) = Inr 2"
    by (simp add: exampleEnv_def)
  from total_estimate_frame [of exampleEnv workingRequest exampleBatchTypes] rh c example_run
  show ?thesis
    by (simp add: list_all_iff)
qed

theorem error_return_is_zero_witness:
  "BatchActivity brokenScanEnv workingRequest =
     Some ((zeroHeartBeatDetails, Some (OtherError ''scan failed'')),
           [HasHeartbeatDetailsCall, CountWorkflowCall ''q'', GoTaskProcessorCall] @ firstPageLog
             @ [ScanWorkflowCall 1000 ''T1'' ''q''])"
proof -
  have "\<exists>h. BatchActivity brokenScanEnv workingRequest =
     Some ((h, Some (OtherError ''scan failed'')),
           [HasHeartbeatDetailsCall, CountWorkflowCall ''q'', GoTaskProcessorCall] @ firstPageLog
             @ [ScanWorkflowCall 1000 ''T1'' ''q''])"
    by (simp add: BatchActivity_def restoreHeartbeat_def pageLoop_unfold pageBody_def
        waitBatch_Resp example_defs brokenScanEnv_def)
  then obtain h where h: "BatchActivity brokenScanEnv workingRequest =
     Some ((h, Some (OtherError ''scan failed'')),
           [HasHeartbeatDetailsCall, CountWorkflowCall ''q'', GoTaskProcessorCall] @ firstPageLog
             @ [ScanWorkflowCall 1000 ''T1'' ''q''])"
    by blast
  from error_return_is_zero [OF h] h show ?thesis by simp
qed

end
